theory Spec2Isabelle
  imports Complex_Main
begin

section \<open>The autotest harness core of Tools/autotest/common.py\<close>

text \<open>
  The exceptions the modelled methods raise. \<open>ValueError\<close>, \<open>TypeError\<close> and
  \<open>IndexError\<close> are Python's own; the others are the classes declared at the top of
  common.py. A method that raises returns \<open>Inl\<close> of the exception, one that returns
  normally returns \<open>Inr\<close> of its value.
\<close>

datatype error =
    ValueError
  | TypeError
  | IndexError
  | WaitHeadingTimeout
  | YawSpeedNotAchievedException
  | SpeedVectorNotAchievedException
  | WaitDistanceTimeout
  | WaitLocationTimeout
  | WaitWaypointTimeout

subsection \<open>run_cmd: send a COMMAND_LONG and wait for its acknowledgment\<close>

text \<open>
  The MAVLink connection as \<open>run_cmd\<close> uses it: \<open>outbox\<close> collects the COMMAND_LONG
  messages handed to \<open>command_long_send\<close>, \<open>inbox\<close> is the sequence of COMMAND_ACK
  messages that \<open>recv_match(type='COMMAND_ACK', blocking=True)\<close> will deliver, oldest
  first. A blocking receive on an empty inbox never returns; the model then yields
  \<open>None\<close>.
\<close>

record command_long =
  target_system :: int
  target_component :: int
  command :: int
  confirmation :: int
  params :: "real list"

record command_ack =
  ack_command :: int
  ack_result :: int

record mavlink =
  outbox :: "command_long list"
  inbox :: "command_ack list"

definition MAV_RESULT_ACCEPTED :: int where
  "MAV_RESULT_ACCEPTED = 0"

text \<open>The \<open>while True\<close> loop of \<open>run_cmd\<close>, one acknowledgment per pass.\<close>

fun run_cmd_loop :: "int \<Rightarrow> int \<Rightarrow> command_ack list \<Rightarrow> ((error + unit) \<times> command_ack list) option" where
  "run_cmd_loop cmd want_result [] = None"
| "run_cmd_loop cmd want_result (m # ms) =
     (if ack_command m = cmd then
        (if ack_result m \<noteq> want_result then Some (Inl ValueError, ms)
         else Some (Inr (), ms))
      else run_cmd_loop cmd want_result ms)"

definition run_cmd ::
  "int \<Rightarrow> real \<Rightarrow> real \<Rightarrow> real \<Rightarrow> real \<Rightarrow> real \<Rightarrow> real \<Rightarrow> real \<Rightarrow> int \<Rightarrow> mavlink
     \<Rightarrow> ((error + unit) \<times> mavlink) option" where
  "run_cmd cmd p1 p2 p3 p4 p5 p6 p7 want_result mav =
     (let sent = \<lparr>target_system = 1, target_component = 1, command = cmd,
                  confirmation = 1, params = [p1, p2, p3, p4, p5, p6, p7]\<rparr>
      in case run_cmd_loop cmd want_result (inbox mav) of
           None \<Rightarrow> None
         | Some (r, rest) \<Rightarrow> Some (r, \<lparr>outbox = outbox mav @ [sent], inbox = rest\<rparr>))"

subsection \<open>Parameters: get_parameter, set_parameter and the context stack\<close>

text \<open>
  MAVProxy is the external process the harness talks to in text lines. The model keeps
  what the harness does with it and leaves MAVProxy itself open: \<open>proxy_send\<close> is
  \<open>mavproxy.send\<close> of a \<open>param set\<close> or \<open>param fetch\<close> line and \<open>proxy_expect\<close> is
  \<open>mavproxy.expect\<close> of the line \<open>name = value\<close> within a timeout, both acting on a
  state \<open>'w\<close> of the process and the vehicle behind it. The value written is Python's
  \<open>None\<close> when \<open>context_pop\<close> restores a value that \<open>get_parameter\<close> could not read;
  numbers are real numbers (no rounding, no NaN).
\<close>

datatype proxy_command = ParamSet string "real option" | ParamFetch string

datatype expect_result =
    Matched real
  | Unparsable
  | TIMEOUT

record 'w mavproxy =
  proxy_send :: "proxy_command \<Rightarrow> 'w \<Rightarrow> 'w"
  proxy_expect :: "string \<Rightarrow> real \<Rightarrow> 'w \<Rightarrow> expect_result \<times> 'w"

text \<open>
  class Context: the list of (name, previous value) pairs, newest last.
\<close>

datatype Context = Context (parameters: "(string \<times> real option) list")

text \<open>
  The part of the AutoTest object these methods read and write: the MAVProxy state and
  \<open>self.contexts\<close>, whose last element is the current context.
\<close>

record 'w autotest =
  link :: 'w
  contexts :: "Context list"

text \<open>
  \<open>get_parameter\<close>: \<open>retry\<close> passes of the \<open>for\<close> loop, each sending a fetch and
  expecting the answer within \<open>timeout / retry\<close>. A pexpect timeout goes to the next pass
  (the test \<open>i < retry\<close> always holds); when the passes are used up the method falls off
  its end and returns \<open>None\<close>. \<open>Unparsable\<close> is a matched text that \<open>float\<close> rejects
  (the pattern \<open>[-0-9.]*\<close> also matches the empty text): \<open>ValueError\<close>.
\<close>

fun get_parameter_loop ::
  "'w mavproxy \<Rightarrow> string \<Rightarrow> real \<Rightarrow> nat \<Rightarrow> 'w \<Rightarrow> (error + real option) \<times> 'w" where
  "get_parameter_loop px name tmo 0 w = (Inr None, w)"
| "get_parameter_loop px name tmo (Suc n) w =
     (case proxy_expect px name tmo (proxy_send px (ParamFetch name) w) of
        (Matched v, w') \<Rightarrow> (Inr (Some v), w')
      | (Unparsable, w') \<Rightarrow> (Inl ValueError, w')
      | (TIMEOUT, w') \<Rightarrow> get_parameter_loop px name tmo n w')"

definition get_parameter ::
  "'w mavproxy \<Rightarrow> string \<Rightarrow> nat \<Rightarrow> real \<Rightarrow> 'w \<Rightarrow> (error + real option) \<times> 'w" where
  "get_parameter px name retry timeout w =
     get_parameter_loop px name (timeout / real retry) retry w"

definition context_get :: "'w autotest \<Rightarrow> error + Context" where
  "context_get s = (case contexts s of [] \<Rightarrow> Inl IndexError | _ \<Rightarrow> Inr (last (contexts s)))"

definition context_push :: "'w autotest \<Rightarrow> 'w autotest" where
  "context_push s = s\<lparr>contexts := contexts s @ [Context []]\<rparr>"

text \<open>
  \<open>context_get().parameters.append((name, old_value))\<close>: the pair goes to the end of the
  last context's list.
\<close>

definition append_to_context :: "string \<times> real option \<Rightarrow> Context list \<Rightarrow> Context list" where
  "append_to_context p cs = butlast cs @ [Context (parameters (last cs) @ [p])]"

text \<open>
  The loop \<open>for i in range(1, 10)\<close> of \<open>set_parameter\<close>, with the number of passes left:
  send the write, read the value back, and on a read-back exactly equal to \<open>float(value)\<close>
  record the pair (when asked to) and return. \<open>float(None)\<close> raises \<open>TypeError\<close>. After
  the last pass: \<open>ValueError\<close>.
\<close>

fun set_parameter_loop ::
  "'w mavproxy \<Rightarrow> string \<Rightarrow> real option \<Rightarrow> bool \<Rightarrow> real option \<Rightarrow> nat \<Rightarrow> 'w autotest
     \<Rightarrow> (error + unit) \<times> 'w autotest" where
  "set_parameter_loop px name val add_to_context old_value 0 s = (Inl ValueError, s)"
| "set_parameter_loop px name val add_to_context old_value (Suc n) s =
     (case get_parameter px name 1 60 (proxy_send px (ParamSet name val) (link s)) of
        (Inl e, w) \<Rightarrow> (Inl e, s\<lparr>link := w\<rparr>)
      | (Inr returned_value, w) \<Rightarrow>
          (case val of
             None \<Rightarrow> (Inl TypeError, s\<lparr>link := w\<rparr>)
           | Some v \<Rightarrow>
               if returned_value = Some v then
                 (if add_to_context then
                    (case context_get s of
                       Inl e \<Rightarrow> (Inl e, s\<lparr>link := w\<rparr>)
                     | Inr c \<Rightarrow>
                         (Inr (), s\<lparr>link := w,
                                    contexts := append_to_context (name, old_value) (contexts s)\<rparr>))
                  else (Inr (), s\<lparr>link := w\<rparr>))
               else set_parameter_loop px name val add_to_context old_value n (s\<lparr>link := w\<rparr>)))"

definition set_parameter ::
  "'w mavproxy \<Rightarrow> string \<Rightarrow> real option \<Rightarrow> bool \<Rightarrow> 'w autotest \<Rightarrow> (error + unit) \<times> 'w autotest" where
  "set_parameter px name val add_to_context s =
     (case get_parameter px name 2 60 (link s) of
        (Inl e, w) \<Rightarrow> (Inl e, s\<lparr>link := w\<rparr>)
      | (Inr old_value, w) \<Rightarrow>
          set_parameter_loop px name val add_to_context old_value 9 (s\<lparr>link := w\<rparr>))"

text \<open>
  The \<open>for p in dead_parameters\<close> loop of \<open>context_pop\<close>: an exception of
  \<open>set_parameter\<close> leaves the loop and the method.
\<close>

fun context_pop_loop ::
  "'w mavproxy \<Rightarrow> (string \<times> real option) list \<Rightarrow> 'w autotest \<Rightarrow> (error + unit) \<times> 'w autotest" where
  "context_pop_loop px [] s = (Inr (), s)"
| "context_pop_loop px ((name, old_value) # ps) s =
     (case set_parameter px name old_value False s of
        (Inl e, s') \<Rightarrow> (Inl e, s')
      | (Inr u, s') \<Rightarrow> context_pop_loop px ps s')"

definition context_pop :: "'w mavproxy \<Rightarrow> 'w autotest \<Rightarrow> (error + unit) \<times> 'w autotest" where
  "context_pop px s =
     (case contexts s of
        [] \<Rightarrow> (Inl IndexError, s)
      | _ \<Rightarrow> context_pop_loop px (rev (parameters (last (contexts s))))
                (s\<lparr>contexts := butlast (contexts s)\<rparr>))"

text \<open>
  A test body that writes \<open>name\<close> several times in a row, as in
  \<open>set_parameter(name, v1); ...; set_parameter(name, vn)\<close>; the first exception ends it.
\<close>

fun set_parameter_seq ::
  "'w mavproxy \<Rightarrow> string \<Rightarrow> real list \<Rightarrow> 'w autotest \<Rightarrow> (error + unit) \<times> 'w autotest" where
  "set_parameter_seq px name [] s = (Inr (), s)"
| "set_parameter_seq px name (v # vs) s =
     (case set_parameter px name (Some v) True s of
        (Inl e, s') \<Rightarrow> (Inl e, s')
      | (Inr u, s') \<Rightarrow> set_parameter_seq px name vs s')"

text \<open>
  The read-backs that \<open>n\<close> passes of \<open>set_parameter\<close>'s loop would see from the state
  \<open>w\<close> on, were none of them to end the loop: what \<open>get_parameter(name)\<close> returns after
  each write.
\<close>

fun read_backs ::
  "'w mavproxy \<Rightarrow> string \<Rightarrow> real option \<Rightarrow> nat \<Rightarrow> 'w \<Rightarrow> (error + real option) list" where
  "read_backs px name val 0 w = []"
| "read_backs px name val (Suc n) w =
     (case get_parameter px name 1 60 (proxy_send px (ParamSet name val) w) of
        (r, w') \<Rightarrow> r # read_backs px name val n w')"

subsection \<open>A vehicle behind MAVProxy\<close>

text \<open>
  One MAVProxy and vehicle to run the methods on: the vehicle holds its parameters in
  \<open>store\<close>, loses the writes that \<open>lost_writes\<close> marks (one flag per \<open>param set\<close>
  sent, in order; no flag left: the write arrives) and leaves unanswered the fetches that
  \<open>lost_replies\<close> marks. A parameter it does not have is not answered either, and the text
  \<open>None\<close> is not a value it accepts. \<open>sent\<close> lists every line the harness sent.
\<close>

record vehicle =
  store :: "string \<Rightarrow> real option"
  lost_writes :: "bool list"
  lost_replies :: "bool list"
  sent :: "proxy_command list"

fun vehicle_send :: "proxy_command \<Rightarrow> vehicle \<Rightarrow> vehicle" where
  "vehicle_send (ParamSet name val) v =
     v\<lparr>sent := sent v @ [ParamSet name val],
       lost_writes := tl (lost_writes v),
       store := (case val of
                   None \<Rightarrow> store v
                 | Some x \<Rightarrow> if lost_writes v \<noteq> [] \<and> hd (lost_writes v) then store v
                             else (store v)(name \<mapsto> x))\<rparr>"
| "vehicle_send (ParamFetch name) v = v\<lparr>sent := sent v @ [ParamFetch name]\<rparr>"

definition vehicle_expect :: "string \<Rightarrow> real \<Rightarrow> vehicle \<Rightarrow> expect_result \<times> vehicle" where
  "vehicle_expect name tmo v =
     (if lost_replies v \<noteq> [] \<and> hd (lost_replies v) then (TIMEOUT, v\<lparr>lost_replies := tl (lost_replies v)\<rparr>)
      else case store v name of
             None \<Rightarrow> (TIMEOUT, v\<lparr>lost_replies := tl (lost_replies v)\<rparr>)
           | Some x \<Rightarrow> (Matched x, v\<lparr>lost_replies := tl (lost_replies v)\<rparr>))"

definition sitl :: "vehicle mavproxy" where
  "sitl = \<lparr>proxy_send = vehicle_send, proxy_expect = vehicle_expect\<rparr>"

text \<open>
  A bench for worked runs: a vehicle holding three parameters and losing the writes that
  \<open>lost\<close> marks, and a harness whose stack holds the context pushed by its constructor
  and the one given.
\<close>

definition bench_vehicle :: "bool list \<Rightarrow> vehicle" where
  "bench_vehicle lost =
     \<lparr>store = [''A'' \<mapsto> 10, ''B'' \<mapsto> 20, ''X'' \<mapsto> 3], lost_writes = lost,
      lost_replies = [], sent = []\<rparr>"

definition bench :: "bool list \<Rightarrow> (string \<times> real option) list \<Rightarrow> vehicle autotest" where
  "bench lost ps = \<lparr>link = bench_vehicle lost, contexts = [Context [], Context ps]\<rparr>"

subsection \<open>Waits that need the condition to hold for a while\<close>

text \<open>
  Telemetry comes from outside. A wait is run on what the telemetry source delivers to
  each pass of its \<open>while\<close> loop, a \<open>tick\<close>: \<open>t_loop\<close> is the \<open>get_sim_time()\<close> of the
  loop condition, \<open>message\<close> what the blocking \<open>recv_match\<close> returns (the fields the wait
  reads), \<open>t_start\<close> the \<open>get_sim_time()\<close> stored in \<open>duration_start\<close> (read only when
  \<open>duration_start\<close> is \<open>None\<close> at a match) and \<open>t_check\<close> the \<open>get_sim_time()\<close> compared
  with \<open>duration_start\<close> (read only at a match). \<open>get_sim_time\<close> waits for a fresh
  SYSTEM_TIME message at every call, so the three times of a pass may differ. The time
  read before the loop is the argument \<open>tstart\<close>. When the ticks run out the wait is
  blocked in a receive: \<open>None\<close>.
\<close>

record 'm tick =
  t_loop :: real
  message :: 'm
  t_start :: real
  t_check :: real

text \<open>
  \<open>the_function\<close> is the caller's callback, run at the start of each pass when it is
  given. The model keeps its outcome: it returns (\<open>None\<close>) or raises.
\<close>

definition call :: "('a \<Rightarrow> error option) option \<Rightarrow> 'a \<Rightarrow> error option" where
  "call the_function k = (case the_function of None \<Rightarrow> None | Some f \<Rightarrow> f k)"

text \<open>
  \<open>wait_heading\<close>. The message is the \<open>heading\<close> field of VFR_HUD. \<open>Inr v\<close> is
  \<open>return True\<close> after the progress line \<open>Attained heading v\<close>.
\<close>

fun wait_heading_loop ::
  "real \<Rightarrow> real \<Rightarrow> real \<Rightarrow> real \<Rightarrow> (real tick \<Rightarrow> error option) option \<Rightarrow> real
     \<Rightarrow> real option \<Rightarrow> real \<Rightarrow> real \<Rightarrow> real \<Rightarrow> real tick list \<Rightarrow> (error + real) option" where
  "wait_heading_loop heading accuracy maintain_target_time timeout the_function tstart
     duration_start mean_heading last_heading counter [] = None"
| "wait_heading_loop heading accuracy maintain_target_time timeout the_function tstart
     duration_start mean_heading last_heading counter (k # ks) =
     (if t_loop k < tstart + timeout then
        (case call the_function k of
           Some e \<Rightarrow> Some (Inl e)
         | None \<Rightarrow>
             if \<bar>message k - heading\<bar> \<le> accuracy \<or>
                heading \<le> accuracy \<and> \<bar>message k - 360\<bar> \<le> accuracy
             then
               (let start = (case duration_start of None \<Rightarrow> t_start k | Some d \<Rightarrow> d) in
                if t_check k - start > maintain_target_time then
                  Some (Inr (if heading \<ge> accuracy
                             then (mean_heading + message k) / (counter + 1)
                             else message k))
                else wait_heading_loop heading accuracy maintain_target_time timeout
                       the_function tstart (Some start) (mean_heading + message k) (message k)
                       (counter + 1) ks)
             else wait_heading_loop heading accuracy maintain_target_time timeout
                    the_function tstart None 0 (message k) 0 ks)
      else Some (Inl WaitHeadingTimeout))"

definition wait_heading ::
  "real \<Rightarrow> real \<Rightarrow> real \<Rightarrow> real \<Rightarrow> (real tick \<Rightarrow> error option) option \<Rightarrow> real
     \<Rightarrow> real tick list \<Rightarrow> (error + real) option" where
  "wait_heading heading accuracy maintain_target_time timeout the_function tstart ticks =
     wait_heading_loop heading accuracy maintain_target_time timeout the_function tstart
       None 0 0 0 ticks"

text \<open>
  \<open>wait_yaw_speed\<close>. The message is the \<open>yawspeed\<close> field of ATTITUDE, in radians per
  second; \<open>math.degrees\<close> turns it into degrees.
\<close>

definition degrees :: "real \<Rightarrow> real" where
  "degrees x = x * 180 / pi"

fun wait_yaw_speed_loop ::
  "real \<Rightarrow> real \<Rightarrow> real \<Rightarrow> real \<Rightarrow> (real tick \<Rightarrow> error option) option \<Rightarrow> real
     \<Rightarrow> real option \<Rightarrow> real \<Rightarrow> real \<Rightarrow> real \<Rightarrow> real tick list \<Rightarrow> (error + real) option" where
  "wait_yaw_speed_loop target_yaw_speed target_accuracy maintain_target_time timeout
     the_function tstart duration_start mean_yaw_rate last_yaw_rate counter [] = None"
| "wait_yaw_speed_loop target_yaw_speed target_accuracy maintain_target_time timeout
     the_function tstart duration_start mean_yaw_rate last_yaw_rate counter (k # ks) =
     (if t_loop k < tstart + timeout then
        (case call the_function k of
           Some e \<Rightarrow> Some (Inl e)
         | None \<Rightarrow>
             if \<bar>degrees (message k) - target_yaw_speed\<bar> \<le> target_accuracy
             then
               (let start = (case duration_start of None \<Rightarrow> t_start k | Some d \<Rightarrow> d) in
                if t_check k - start > maintain_target_time then
                  Some (Inr ((mean_yaw_rate + degrees (message k)) / (counter + 1)))
                else wait_yaw_speed_loop target_yaw_speed target_accuracy maintain_target_time
                       timeout the_function tstart (Some start)
                       (mean_yaw_rate + degrees (message k)) (degrees (message k))
                       (counter + 1) ks)
             else wait_yaw_speed_loop target_yaw_speed target_accuracy maintain_target_time
                    timeout the_function tstart None 0 (degrees (message k)) 0 ks)
      else Some (Inl YawSpeedNotAchievedException))"

definition wait_yaw_speed ::
  "real \<Rightarrow> real \<Rightarrow> real \<Rightarrow> real \<Rightarrow> (real tick \<Rightarrow> error option) option \<Rightarrow> real
     \<Rightarrow> real tick list \<Rightarrow> (error + real) option" where
  "wait_yaw_speed target_yaw_speed target_accuracy maintain_target_time timeout the_function
     tstart ticks =
     wait_yaw_speed_loop target_yaw_speed target_accuracy maintain_target_time timeout
       the_function tstart None 0 0 0 ticks"

text \<open>
  \<open>wait_speed_vector\<close>. The message is (vx, vy, vz) of LOCAL_POSITION_NED; \<open>Inr\<close> carries
  the three means of the progress line.
\<close>

type_synonym velocity = "real \<times> real \<times> real"

fun wait_speed_vector_loop ::
  "real \<Rightarrow> real \<Rightarrow> real \<Rightarrow> real \<Rightarrow> real \<Rightarrow> real \<Rightarrow> (velocity tick \<Rightarrow> error option) option
     \<Rightarrow> real \<Rightarrow> real option \<Rightarrow> real \<Rightarrow> real \<Rightarrow> real \<Rightarrow> real \<Rightarrow> velocity tick list
     \<Rightarrow> (error + velocity) option" where
  "wait_speed_vector_loop target_vx target_vy target_vz target_accuracy maintain_target_time
     timeout the_function tstart duration_start mean_vx mean_vy mean_vz counter [] = None"
| "wait_speed_vector_loop target_vx target_vy target_vz target_accuracy maintain_target_time
     timeout the_function tstart duration_start mean_vx mean_vy mean_vz counter (k # ks) =
     (if t_loop k < tstart + timeout then
        (case call the_function k of
           Some e \<Rightarrow> Some (Inl e)
         | None \<Rightarrow>
            (case message k of (vx, vy, vz) \<Rightarrow>
             if \<bar>vx - target_vx\<bar> \<le> target_accuracy \<and> \<bar>vy - target_vy\<bar> \<le> target_accuracy \<and>
                \<bar>vz - target_vz\<bar> \<le> target_accuracy
             then
               (let start = (case duration_start of None \<Rightarrow> t_start k | Some d \<Rightarrow> d) in
                if t_check k - start > maintain_target_time then
                  Some (Inr ((mean_vx + vx) / (counter + 1), (mean_vy + vy) / (counter + 1),
                             (mean_vz + vz) / (counter + 1)))
                else wait_speed_vector_loop target_vx target_vy target_vz target_accuracy
                       maintain_target_time timeout the_function tstart (Some start)
                       (mean_vx + vx) (mean_vy + vy) (mean_vz + vz) (counter + 1) ks)
             else wait_speed_vector_loop target_vx target_vy target_vz target_accuracy
                    maintain_target_time timeout the_function tstart None 0 0 0 0 ks))
      else Some (Inl SpeedVectorNotAchievedException))"

definition wait_speed_vector ::
  "real \<Rightarrow> real \<Rightarrow> real \<Rightarrow> real \<Rightarrow> real \<Rightarrow> real \<Rightarrow> (velocity tick \<Rightarrow> error option) option
     \<Rightarrow> real \<Rightarrow> velocity tick list \<Rightarrow> (error + velocity) option" where
  "wait_speed_vector target_vx target_vy target_vz target_accuracy maintain_target_time timeout
     the_function tstart ticks =
     wait_speed_vector_loop target_vx target_vy target_vz target_accuracy maintain_target_time
       timeout the_function tstart None 0 0 0 0 ticks"

text \<open>
  The conditions of the three waits on one message, as their \<open>if\<close> lines have them.
\<close>

definition heading_in_tolerance :: "real \<Rightarrow> real \<Rightarrow> real \<Rightarrow> bool" where
  "heading_in_tolerance heading accuracy h =
     (\<bar>h - heading\<bar> \<le> accuracy \<or> heading \<le> accuracy \<and> \<bar>h - 360\<bar> \<le> accuracy)"

definition yaw_speed_in_tolerance :: "real \<Rightarrow> real \<Rightarrow> real \<Rightarrow> bool" where
  "yaw_speed_in_tolerance target_yaw_speed target_accuracy yawspeed =
     (\<bar>degrees yawspeed - target_yaw_speed\<bar> \<le> target_accuracy)"

definition speed_vector_in_tolerance :: "real \<Rightarrow> real \<Rightarrow> real \<Rightarrow> real \<Rightarrow> velocity \<Rightarrow> bool" where
  "speed_vector_in_tolerance target_vx target_vy target_vz target_accuracy v =
     (case v of (vx, vy, vz) \<Rightarrow>
        \<bar>vx - target_vx\<bar> \<le> target_accuracy \<and> \<bar>vy - target_vy\<bar> \<le> target_accuracy \<and>
        \<bar>vz - target_vz\<bar> \<le> target_accuracy)"

text \<open>
  What the claims call a run: a maximal stretch of consecutive ticks whose messages are in
  tolerance. It starts at the \<open>t_start\<close> of its first tick, and at each of its ticks it
  has lasted \<open>t_check\<close> minus that start. \<open>short_runs S ok start ticks\<close>: no run of
  \<open>ticks\<close> ever lasts \<open>S\<close> or more, where \<open>start\<close> is the start of a run already under
  way (\<open>None\<close>: no run under way).
\<close>

fun short_runs :: "real \<Rightarrow> ('m \<Rightarrow> bool) \<Rightarrow> real option \<Rightarrow> 'm tick list \<Rightarrow> bool" where
  "short_runs S ok start [] = True"
| "short_runs S ok start (k # ks) =
     (if ok (message k) then
        (let s = (case start of None \<Rightarrow> t_start k | Some d \<Rightarrow> d) in
         t_check k - s < S \<and> short_runs S ok (Some s) ks)
      else short_runs S ok None ks)"

text \<open>The ticks whose loop condition holds: those before the deadline.\<close>

definition before_deadline :: "real \<Rightarrow> real \<Rightarrow> 'm tick list \<Rightarrow> 'm tick list" where
  "before_deadline tstart timeout ticks = takeWhile (\<lambda>k. t_loop k < tstart + timeout) ticks"

subsection \<open>Waits on the position\<close>

record location =
  lat :: real
  lng :: real
  alt :: real

text \<open>\<open>get_distance\<close>, on locations that have the attribute \<open>lng\<close>.\<close>

definition get_distance :: "location \<Rightarrow> location \<Rightarrow> real" where
  "get_distance loc1 loc2 =
     (let dlat = lat loc2 - lat loc1; dlong = lng loc2 - lng loc1
      in sqrt ((dlat * dlat) + (dlong * dlong)) * 111319.5)"

text \<open>
  \<open>wait_distance\<close> and \<open>wait_location\<close> poll: each pass reads the time for the loop
  condition and then \<open>self.mav.location()\<close>. The polls are the pairs of the two; \<open>start\<close> is
  the location read before the loop.
\<close>

fun wait_distance_loop ::
  "real \<Rightarrow> real \<Rightarrow> real \<Rightarrow> real \<Rightarrow> location \<Rightarrow> (real \<times> location) list \<Rightarrow> (error + bool) option" where
  "wait_distance_loop distance accuracy timeout tstart start [] = None"
| "wait_distance_loop distance accuracy timeout tstart start ((t, pos) # ps) =
     (if t < tstart + timeout then
        (let delta = get_distance start pos in
         if \<bar>delta - distance\<bar> \<le> accuracy then Some (Inr True)
         else if delta > (distance + accuracy) then Some (Inl WaitDistanceTimeout)
         else wait_distance_loop distance accuracy timeout tstart start ps)
      else Some (Inl WaitDistanceTimeout))"

definition wait_distance ::
  "real \<Rightarrow> real \<Rightarrow> real \<Rightarrow> real \<Rightarrow> location \<Rightarrow> (real \<times> location) list \<Rightarrow> (error + bool) option" where
  "wait_distance distance accuracy timeout tstart start polls =
     wait_distance_loop distance accuracy timeout tstart start polls"

fun wait_location_loop ::
  "location \<Rightarrow> real \<Rightarrow> real \<Rightarrow> real \<Rightarrow> real \<Rightarrow> real \<Rightarrow> (real \<times> location) list
     \<Rightarrow> (error + bool) option" where
  "wait_location_loop loc accuracy timeout target_altitude height_accuracy tstart [] = None"
| "wait_location_loop loc accuracy timeout target_altitude height_accuracy tstart ((t, pos) # ps) =
     (if t < tstart + timeout then
        (let delta = get_distance loc pos in
         if delta \<le> accuracy then
           (let height_delta = \<bar>alt pos - target_altitude\<bar> in
            if height_accuracy \<noteq> - 1 \<and> height_delta > height_accuracy
            then wait_location_loop loc accuracy timeout target_altitude height_accuracy tstart ps
            else Some (Inr True))
         else wait_location_loop loc accuracy timeout target_altitude height_accuracy tstart ps)
      else Some (Inl WaitLocationTimeout))"

definition wait_location ::
  "location \<Rightarrow> real \<Rightarrow> real \<Rightarrow> real option \<Rightarrow> real \<Rightarrow> real \<Rightarrow> (real \<times> location) list
     \<Rightarrow> (error + bool) option" where
  "wait_location loc accuracy timeout target_altitude height_accuracy tstart polls =
     wait_location_loop loc accuracy timeout
       (case target_altitude of None \<Rightarrow> alt loc | Some a \<Rightarrow> a) height_accuracy tstart polls"

subsection \<open>wait_waypoint\<close>




text \<open>
  A stream for worked runs, with the deadline at 30: two passes in tolerance (a run of 4
  seconds from time 2), one pass out of tolerance, two passes in tolerance (a run of 4
  seconds from time 11), and the pass whose loop condition fails.
\<close>

definition broken_run :: "'m \<Rightarrow> 'm \<Rightarrow> 'm tick list" where
  "broken_run inside outside =
     [\<lparr>t_loop = 1, message = inside, t_start = 2, t_check = 3\<rparr>,
      \<lparr>t_loop = 4, message = inside, t_start = 5, t_check = 6\<rparr>,
      \<lparr>t_loop = 7, message = outside, t_start = 8, t_check = 9\<rparr>,
      \<lparr>t_loop = 10, message = inside, t_start = 11, t_check = 12\<rparr>,
      \<lparr>t_loop = 13, message = inside, t_start = 14, t_check = 15\<rparr>,
      \<lparr>t_loop = 30, message = inside, t_start = 31, t_check = 32\<rparr>]"

subsection \<open>The sustained waits in double precision\<close>

text \<open>
  The times of \<open>get_sim_time()\<close> are Python floats, and \<open>get_sim_time() - duration_start\<close>
  is their double-precision difference, which may differ from the difference of the two
  numbers by a rounding. The three loops once more, as above in everything but this: the
  subtraction of the sustain test is the parameter \<open>fsub\<close>, so that what is proved of
  them for every \<open>fsub\<close> holds of the subtraction the interpreter performs.
\<close>

fun wait_heading_loop_fp ::
  "(real \<Rightarrow> real \<Rightarrow> real) \<Rightarrow> real \<Rightarrow> real \<Rightarrow> real \<Rightarrow> real \<Rightarrow> (real tick \<Rightarrow> error option) option \<Rightarrow> real
     \<Rightarrow> real option \<Rightarrow> real \<Rightarrow> real \<Rightarrow> real \<Rightarrow> real tick list \<Rightarrow> (error + real) option" where
  "wait_heading_loop_fp fsub heading accuracy maintain_target_time timeout the_function tstart
     duration_start mean_heading last_heading counter [] = None"
| "wait_heading_loop_fp fsub heading accuracy maintain_target_time timeout the_function tstart
     duration_start mean_heading last_heading counter (k # ks) =
     (if t_loop k < tstart + timeout then
        (case call the_function k of
           Some e \<Rightarrow> Some (Inl e)
         | None \<Rightarrow>
             if \<bar>message k - heading\<bar> \<le> accuracy \<or>
                heading \<le> accuracy \<and> \<bar>message k - 360\<bar> \<le> accuracy
             then
               (let start = (case duration_start of None \<Rightarrow> t_start k | Some d \<Rightarrow> d) in
                if fsub (t_check k) start > maintain_target_time then
                  Some (Inr (if heading \<ge> accuracy
                             then (mean_heading + message k) / (counter + 1)
                             else message k))
                else wait_heading_loop_fp fsub heading accuracy maintain_target_time timeout
                       the_function tstart (Some start) (mean_heading + message k) (message k)
                       (counter + 1) ks)
             else wait_heading_loop_fp fsub heading accuracy maintain_target_time timeout
                    the_function tstart None 0 (message k) 0 ks)
      else Some (Inl WaitHeadingTimeout))"

definition wait_heading_fp ::
  "(real \<Rightarrow> real \<Rightarrow> real) \<Rightarrow> real \<Rightarrow> real \<Rightarrow> real \<Rightarrow> real \<Rightarrow> (real tick \<Rightarrow> error option) option \<Rightarrow> real
     \<Rightarrow> real tick list \<Rightarrow> (error + real) option" where
  "wait_heading_fp fsub heading accuracy maintain_target_time timeout the_function tstart ticks =
     wait_heading_loop_fp fsub heading accuracy maintain_target_time timeout the_function tstart
       None 0 0 0 ticks"

fun wait_yaw_speed_loop_fp ::
  "(real \<Rightarrow> real \<Rightarrow> real) \<Rightarrow> real \<Rightarrow> real \<Rightarrow> real \<Rightarrow> real \<Rightarrow> (real tick \<Rightarrow> error option) option \<Rightarrow> real
     \<Rightarrow> real option \<Rightarrow> real \<Rightarrow> real \<Rightarrow> real \<Rightarrow> real tick list \<Rightarrow> (error + real) option" where
  "wait_yaw_speed_loop_fp fsub target_yaw_speed target_accuracy maintain_target_time timeout
     the_function tstart duration_start mean_yaw_rate last_yaw_rate counter [] = None"
| "wait_yaw_speed_loop_fp fsub target_yaw_speed target_accuracy maintain_target_time timeout
     the_function tstart duration_start mean_yaw_rate last_yaw_rate counter (k # ks) =
     (if t_loop k < tstart + timeout then
        (case call the_function k of
           Some e \<Rightarrow> Some (Inl e)
         | None \<Rightarrow>
             if \<bar>degrees (message k) - target_yaw_speed\<bar> \<le> target_accuracy
             then
               (let start = (case duration_start of None \<Rightarrow> t_start k | Some d \<Rightarrow> d) in
                if fsub (t_check k) start > maintain_target_time then
                  Some (Inr ((mean_yaw_rate + degrees (message k)) / (counter + 1)))
                else wait_yaw_speed_loop_fp fsub target_yaw_speed target_accuracy maintain_target_time
                       timeout the_function tstart (Some start)
                       (mean_yaw_rate + degrees (message k)) (degrees (message k))
                       (counter + 1) ks)
             else wait_yaw_speed_loop_fp fsub target_yaw_speed target_accuracy maintain_target_time
                    timeout the_function tstart None 0 (degrees (message k)) 0 ks)
      else Some (Inl YawSpeedNotAchievedException))"

definition wait_yaw_speed_fp ::
  "(real \<Rightarrow> real \<Rightarrow> real) \<Rightarrow> real \<Rightarrow> real \<Rightarrow> real \<Rightarrow> real \<Rightarrow> (real tick \<Rightarrow> error option) option \<Rightarrow> real
     \<Rightarrow> real tick list \<Rightarrow> (error + real) option" where
  "wait_yaw_speed_fp fsub target_yaw_speed target_accuracy maintain_target_time timeout the_function
     tstart ticks =
     wait_yaw_speed_loop_fp fsub target_yaw_speed target_accuracy maintain_target_time timeout
       the_function tstart None 0 0 0 ticks"

fun wait_speed_vector_loop_fp ::
  "(real \<Rightarrow> real \<Rightarrow> real) \<Rightarrow> real \<Rightarrow> real \<Rightarrow> real \<Rightarrow> real \<Rightarrow> real \<Rightarrow> real \<Rightarrow> (velocity tick \<Rightarrow> error option) option
     \<Rightarrow> real \<Rightarrow> real option \<Rightarrow> real \<Rightarrow> real \<Rightarrow> real \<Rightarrow> real \<Rightarrow> velocity tick list
     \<Rightarrow> (error + velocity) option" where
  "wait_speed_vector_loop_fp fsub target_vx target_vy target_vz target_accuracy maintain_target_time
     timeout the_function tstart duration_start mean_vx mean_vy mean_vz counter [] = None"
| "wait_speed_vector_loop_fp fsub target_vx target_vy target_vz target_accuracy maintain_target_time
     timeout the_function tstart duration_start mean_vx mean_vy mean_vz counter (k # ks) =
     (if t_loop k < tstart + timeout then
        (case call the_function k of
           Some e \<Rightarrow> Some (Inl e)
         | None \<Rightarrow>
            (case message k of (vx, vy, vz) \<Rightarrow>
             if \<bar>vx - target_vx\<bar> \<le> target_accuracy \<and> \<bar>vy - target_vy\<bar> \<le> target_accuracy \<and>
                \<bar>vz - target_vz\<bar> \<le> target_accuracy
             then
               (let start = (case duration_start of None \<Rightarrow> t_start k | Some d \<Rightarrow> d) in
                if fsub (t_check k) start > maintain_target_time then
                  Some (Inr ((mean_vx + vx) / (counter + 1), (mean_vy + vy) / (counter + 1),
                             (mean_vz + vz) / (counter + 1)))
                else wait_speed_vector_loop_fp fsub target_vx target_vy target_vz target_accuracy
                       maintain_target_time timeout the_function tstart (Some start)
                       (mean_vx + vx) (mean_vy + vy) (mean_vz + vz) (counter + 1) ks)
             else wait_speed_vector_loop_fp fsub target_vx target_vy target_vz target_accuracy
                    maintain_target_time timeout the_function tstart None 0 0 0 0 ks))
      else Some (Inl SpeedVectorNotAchievedException))"

definition wait_speed_vector_fp ::
  "(real \<Rightarrow> real \<Rightarrow> real) \<Rightarrow> real \<Rightarrow> real \<Rightarrow> real \<Rightarrow> real \<Rightarrow> real \<Rightarrow> real \<Rightarrow> (velocity tick \<Rightarrow> error option) option
     \<Rightarrow> real \<Rightarrow> velocity tick list \<Rightarrow> (error + velocity) option" where
  "wait_speed_vector_fp fsub target_vx target_vy target_vz target_accuracy maintain_target_time timeout
     the_function tstart ticks =
     wait_speed_vector_loop_fp fsub target_vx target_vy target_vz target_accuracy maintain_target_time
       timeout the_function tstart None 0 0 0 0 ticks"

subsection \<open>set_parameter and the context stack: what a call leaves behind\<close>

lemma set_parameter_loop_raises:
  "set_parameter_loop px name val add old n s = (Inl e, s') \<Longrightarrow> contexts s' = contexts s"
proof (induction n arbitrary: s)
  case 0
  then show ?case by simp
next
  case (Suc n)
  then show ?case
    by (auto split: prod.splits sum.splits option.splits if_splits)
qed

lemma set_parameter_loop_returns:
  "set_parameter_loop px name val add old n s = (Inr u, s') \<Longrightarrow>
   (\<exists>v. val = Some v) \<and>
   (if add then contexts s \<noteq> [] \<and> contexts s' = append_to_context (name, old) (contexts s)
    else contexts s' = contexts s)"
proof (induction n arbitrary: s)
  case 0
  then show ?case by simp
next
  case (Suc n)
  obtain r w where g: "get_parameter px name 1 60 (proxy_send px (ParamSet name val) (link s)) = (r, w)"
    by (cases "get_parameter px name 1 60 (proxy_send px (ParamSet name val) (link s))")
  from Suc.prems g obtain rv v where r: "r = Inr rv" and v: "val = Some v"
    by (auto split: sum.splits option.splits)
  show ?case
  proof (cases "rv = Some v")
    case True
    with Suc.prems g r v show ?thesis
      by (auto simp: context_get_def split: if_splits list.splits)
  next
    case False
    with Suc.prems g r v
    have "set_parameter_loop px name val add old n (s\<lparr>link := w\<rparr>) = (Inr u, s')"
      by simp
    from Suc.IH [OF this] show ?thesis by (simp split: if_splits)
  qed
qed

lemma set_parameter_raises:
  "set_parameter px name val add s = (Inl e, s') \<Longrightarrow> contexts s' = contexts s"
  by (auto simp: set_parameter_def split: prod.splits sum.splits dest: set_parameter_loop_raises)

lemma set_parameter_returns:
  "set_parameter px name val add s = (Inr u, s') \<Longrightarrow>
   \<exists>old w. get_parameter px name 2 60 (link s) = (Inr old, w) \<and> (\<exists>v. val = Some v) \<and>
     (if add then contexts s \<noteq> [] \<and> contexts s' = append_to_context (name, old) (contexts s)
      else contexts s' = contexts s)"
  by (auto simp: set_parameter_def split: prod.splits sum.splits dest!: set_parameter_loop_returns)

lemma set_parameter_loop_no_read_back:
  "Inr (Some v) \<notin> set (read_backs px name (Some v) n (link s)) \<Longrightarrow>
   \<exists>e. fst (set_parameter_loop px name (Some v) add old n s) = Inl e"
proof (induction n arbitrary: s)
  case 0
  then show ?case by simp
next
  case (Suc n)
  then show ?case
    by (auto split: prod.splits sum.splits)
qed

lemma context_pop_last:
  "contexts s = cs @ [dead] \<Longrightarrow>
   context_pop px s = context_pop_loop px (rev (parameters dead)) (s\<lparr>contexts := cs\<rparr>)"
  by (simp add: context_pop_def list.case_eq_if)

lemma context_pop_loop_append:
  "context_pop_loop px (ps @ qs) s =
     (case context_pop_loop px ps s of
        (Inl e, s') \<Rightarrow> (Inl e, s')
      | (Inr u, s') \<Rightarrow> context_pop_loop px qs s')"
  by (induction ps arbitrary: s) (auto split: prod.splits sum.splits)

lemma context_pop_loop_contexts:
  "context_pop_loop px ps s = (r, s') \<Longrightarrow> contexts s' = contexts s"
proof (induction ps arbitrary: s)
  case Nil
  then show ?case by simp
next
  case (Cons p ps)
  obtain name old_value where p: "p = (name, old_value)" by (cases p)
  obtain r1 s1 where c: "set_parameter px name old_value False s = (r1, s1)"
    by (cases "set_parameter px name old_value False s")
  show ?case
  proof (cases r1)
    case (Inl e)
    with Cons.prems p c set_parameter_raises [of px name old_value False s e s1]
    show ?thesis by simp
  next
    case (Inr u)
    with c set_parameter_returns [of px name old_value False s u s1]
    have "contexts s1 = contexts s" by auto
    moreover from Cons.prems p c Inr have "context_pop_loop px ps s1 = (r, s')" by simp
    ultimately show ?thesis using Cons.IH by simp
  qed
qed

lemma context_pop_loop_last:
  "context_pop_loop px (ps @ [(name, old_value)]) s = (Inr u, s') \<Longrightarrow>
   \<exists>s''. set_parameter px name old_value False s'' = (Inr u, s')"
  by (auto simp: context_pop_loop_append split: prod.splits sum.splits)

lemma set_parameter_seq_contexts:
  "set_parameter_seq px name vs s = (Inr u, s') \<Longrightarrow> contexts s = cs @ [Context ps] \<Longrightarrow>
   \<exists>qs. contexts s' = cs @ [Context (ps @ qs)]"
proof (induction vs arbitrary: s ps)
  case Nil
  then show ?case by simp
next
  case (Cons v vs)
  obtain r1 s1 where c: "set_parameter px name (Some v) True s = (r1, s1)"
    by (cases "set_parameter px name (Some v) True s")
  with Cons.prems obtain u1 where r1: "r1 = Inr u1" by (cases r1) auto
  from c r1 set_parameter_returns [of px name "Some v" True s u1 s1] Cons.prems(2)
  obtain old where "contexts s1 = cs @ [Context (ps @ [(name, old)])]"
    by (auto simp: append_to_context_def)
  moreover from Cons.prems c r1 have "set_parameter_seq px name vs s1 = (Inr u, s')" by simp
  ultimately obtain qs where "contexts s' = cs @ [Context ((ps @ [(name, old)]) @ qs)]"
    using Cons.IH by blast
  then show ?case by auto
qed

subsection \<open>The vehicle: what a confirmed write means\<close>

lemma vehicle_fetch:
  "proxy_expect sitl name tmo (proxy_send sitl (ParamFetch name) w) = (x, w1) \<Longrightarrow>
   store w1 = store w \<and> (x = TIMEOUT \<or> (\<exists>v. x = Matched v \<and> store w name = Some v))"
  by (auto simp: sitl_def vehicle_expect_def split: if_splits option.splits)

lemma vehicle_get_parameter_loop:
  "get_parameter_loop sitl name tmo n w = (r, w') \<Longrightarrow>
   store w' = store w \<and> (r = Inr None \<or> r = Inr (store w name))"
proof (induction n arbitrary: w)
  case 0
  then show ?case by simp
next
  case (Suc n)
  obtain x w1 where f: "proxy_expect sitl name tmo (proxy_send sitl (ParamFetch name) w) = (x, w1)"
    by (cases "proxy_expect sitl name tmo (proxy_send sitl (ParamFetch name) w)")
  from vehicle_fetch [OF f]
  have st: "store w1 = store w" and x: "x = TIMEOUT \<or> (\<exists>v. x = Matched v \<and> store w name = Some v)"
    by auto
  show ?case
  proof (cases "x = TIMEOUT")
    case True
    with Suc.prems f have "get_parameter_loop sitl name tmo n w1 = (r, w')" by simp
    from Suc.IH [OF this] st show ?thesis by simp
  next
    case False
    with x obtain v where "x = Matched v" and "store w name = Some v" by auto
    with Suc.prems f st show ?thesis by auto
  qed
qed

lemma vehicle_get_parameter:
  "get_parameter sitl name retry tmo w = (r, w') \<Longrightarrow>
   store w' = store w \<and> (r = Inr None \<or> r = Inr (store w name))"
  unfolding get_parameter_def by (rule vehicle_get_parameter_loop)

lemma vehicle_set_parameter_loop:
  "set_parameter_loop sitl name val add old n s = (Inr u, s') \<Longrightarrow>
   \<exists>v. val = Some v \<and> store (link s') name = Some v"
proof (induction n arbitrary: s)
  case 0
  then show ?case by simp
next
  case (Suc n)
  obtain r w where g: "get_parameter sitl name 1 60 (proxy_send sitl (ParamSet name val) (link s)) = (r, w)"
    by (cases "get_parameter sitl name 1 60 (proxy_send sitl (ParamSet name val) (link s))")
  from Suc.prems g obtain rv v where r: "r = Inr rv" and v: "val = Some v"
    by (auto split: sum.splits option.splits)
  show ?case
  proof (cases "rv = Some v")
    case True
    from vehicle_get_parameter [OF g] r True
    have "store w name = Some v" by auto
    moreover from Suc.prems g r v True have "link s' = w"
      by (auto simp: context_get_def split: if_splits list.splits)
    ultimately show ?thesis using v by simp
  next
    case False
    with Suc.prems g r v
    have "set_parameter_loop sitl name val add old n (s\<lparr>link := w\<rparr>) = (Inr u, s')"
      by simp
    from Suc.IH [OF this] show ?thesis .
  qed
qed

lemma vehicle_set_parameter:
  "set_parameter sitl name val add s = (Inr u, s') \<Longrightarrow>
   \<exists>v. val = Some v \<and> store (link s') name = Some v"
  by (auto simp: set_parameter_def split: prod.splits sum.splits dest: vehicle_set_parameter_loop)

subsection \<open>Sustained waits: runs that are too short, runs that are long enough\<close>

lemma wait_heading_loop_step:
  "t_loop k < tstart + timeout \<Longrightarrow> call f k = None \<Longrightarrow>
   wait_heading_loop heading accuracy S timeout f tstart ds mean prev cnt (k # ks) =
     (if heading_in_tolerance heading accuracy (message k) then
        (if S < t_check k - (case ds of None \<Rightarrow> t_start k | Some d \<Rightarrow> d) then
           Some (Inr (if heading \<ge> accuracy then (mean + message k) / (cnt + 1) else message k))
         else wait_heading_loop heading accuracy S timeout f tstart
                (Some (case ds of None \<Rightarrow> t_start k | Some d \<Rightarrow> d))
                (mean + message k) (message k) (cnt + 1) ks)
      else wait_heading_loop heading accuracy S timeout f tstart None 0 (message k) 0 ks)"
  by (simp add: heading_in_tolerance_def Let_def)

lemma wait_heading_loop_short_runs:
  "short_runs S (heading_in_tolerance heading accuracy) ds (before_deadline tstart timeout ticks) \<Longrightarrow>
   \<exists>k \<in> set ticks. tstart + timeout \<le> t_loop k \<Longrightarrow>
   \<forall>k \<in> set ticks. call f k = None \<Longrightarrow>
   wait_heading_loop heading accuracy S timeout f tstart ds mean prev cnt ticks =
     Some (Inl WaitHeadingTimeout)"
proof (induction ticks arbitrary: ds mean prev cnt)
  case Nil
  then show ?case by simp
next
  case (Cons k ks)
  show ?case
  proof (cases "t_loop k < tstart + timeout")
    case False
    then show ?thesis by simp
  next
    case True
    with Cons.prems(2) have later: "\<exists>k \<in> set ks. tstart + timeout \<le> t_loop k" by auto
    from Cons.prems(3) have quiet: "\<forall>k \<in> set ks. call f k = None" and now: "call f k = None"
      by auto
    show ?thesis
    proof (cases "heading_in_tolerance heading accuracy (message k)")
      case False
      with Cons.prems(1) True
      have "short_runs S (heading_in_tolerance heading accuracy) None (before_deadline tstart timeout ks)"
        by (simp add: before_deadline_def)
      from Cons.IH [OF this later quiet] False show ?thesis
        by (simp add: wait_heading_loop_step [OF True now] del: wait_heading_loop.simps)
    next
      case ok: True
      let ?s = "case ds of None \<Rightarrow> t_start k | Some d \<Rightarrow> d"
      from Cons.prems(1) True ok
      have short: "t_check k - ?s < S"
        and "short_runs S (heading_in_tolerance heading accuracy) (Some ?s) (before_deadline tstart timeout ks)"
        by (simp_all add: before_deadline_def Let_def)
      from Cons.IH [OF this(2) later quiet] ok short show ?thesis
        by (simp add: wait_heading_loop_step [OF True now] del: wait_heading_loop.simps)
    qed
  qed
qed

lemma wait_yaw_speed_loop_step:
  "t_loop k < tstart + timeout \<Longrightarrow> call f k = None \<Longrightarrow>
   wait_yaw_speed_loop target accuracy S timeout f tstart ds mean prev cnt (k # ks) =
     (if yaw_speed_in_tolerance target accuracy (message k) then
        (if S < t_check k - (case ds of None \<Rightarrow> t_start k | Some d \<Rightarrow> d) then
           Some (Inr ((mean + degrees (message k)) / (cnt + 1)))
         else wait_yaw_speed_loop target accuracy S timeout f tstart
                (Some (case ds of None \<Rightarrow> t_start k | Some d \<Rightarrow> d))
                (mean + degrees (message k)) (degrees (message k)) (cnt + 1) ks)
      else wait_yaw_speed_loop target accuracy S timeout f tstart None 0 (degrees (message k)) 0 ks)"
  by (simp add: yaw_speed_in_tolerance_def Let_def)

lemma wait_yaw_speed_loop_short_runs:
  "short_runs S (yaw_speed_in_tolerance target accuracy) ds (before_deadline tstart timeout ticks) \<Longrightarrow>
   \<exists>k \<in> set ticks. tstart + timeout \<le> t_loop k \<Longrightarrow>
   \<forall>k \<in> set ticks. call f k = None \<Longrightarrow>
   wait_yaw_speed_loop target accuracy S timeout f tstart ds mean prev cnt ticks =
     Some (Inl YawSpeedNotAchievedException)"
proof (induction ticks arbitrary: ds mean prev cnt)
  case Nil
  then show ?case by simp
next
  case (Cons k ks)
  show ?case
  proof (cases "t_loop k < tstart + timeout")
    case False
    then show ?thesis by simp
  next
    case True
    with Cons.prems(2) have later: "\<exists>k \<in> set ks. tstart + timeout \<le> t_loop k" by auto
    from Cons.prems(3) have quiet: "\<forall>k \<in> set ks. call f k = None" and now: "call f k = None"
      by auto
    show ?thesis
    proof (cases "yaw_speed_in_tolerance target accuracy (message k)")
      case False
      with Cons.prems(1) True
      have "short_runs S (yaw_speed_in_tolerance target accuracy) None (before_deadline tstart timeout ks)"
        by (simp add: before_deadline_def)
      from Cons.IH [OF this later quiet] False show ?thesis
        by (simp add: wait_yaw_speed_loop_step [OF True now] del: wait_yaw_speed_loop.simps)
    next
      case ok: True
      let ?s = "case ds of None \<Rightarrow> t_start k | Some d \<Rightarrow> d"
      from Cons.prems(1) True ok
      have short: "t_check k - ?s < S"
        and "short_runs S (yaw_speed_in_tolerance target accuracy) (Some ?s) (before_deadline tstart timeout ks)"
        by (simp_all add: before_deadline_def Let_def)
      from Cons.IH [OF this(2) later quiet] ok short show ?thesis
        by (simp add: wait_yaw_speed_loop_step [OF True now] del: wait_yaw_speed_loop.simps)
    qed
  qed
qed

lemma wait_speed_vector_loop_step:
  "t_loop k < tstart + timeout \<Longrightarrow> call f k = None \<Longrightarrow> message k = (vx, vy, vz) \<Longrightarrow>
   wait_speed_vector_loop tx ty tz accuracy S timeout f tstart ds mx my mz cnt (k # ks) =
     (if speed_vector_in_tolerance tx ty tz accuracy (message k) then
        (if S < t_check k - (case ds of None \<Rightarrow> t_start k | Some d \<Rightarrow> d) then
           Some (Inr ((mx + vx) / (cnt + 1), (my + vy) / (cnt + 1), (mz + vz) / (cnt + 1)))
         else wait_speed_vector_loop tx ty tz accuracy S timeout f tstart
                (Some (case ds of None \<Rightarrow> t_start k | Some d \<Rightarrow> d))
                (mx + vx) (my + vy) (mz + vz) (cnt + 1) ks)
      else wait_speed_vector_loop tx ty tz accuracy S timeout f tstart None 0 0 0 0 ks)"
  by (simp add: speed_vector_in_tolerance_def Let_def)

lemma wait_speed_vector_loop_short_runs:
  "short_runs S (speed_vector_in_tolerance tx ty tz accuracy) ds (before_deadline tstart timeout ticks) \<Longrightarrow>
   \<exists>k \<in> set ticks. tstart + timeout \<le> t_loop k \<Longrightarrow>
   \<forall>k \<in> set ticks. call f k = None \<Longrightarrow>
   wait_speed_vector_loop tx ty tz accuracy S timeout f tstart ds mx my mz cnt ticks =
     Some (Inl SpeedVectorNotAchievedException)"
proof (induction ticks arbitrary: ds mx my mz cnt)
  case Nil
  then show ?case by simp
next
  case (Cons k ks)
  obtain vx vy vz where m: "message k = (vx, vy, vz)" by (cases "message k") auto
  show ?case
  proof (cases "t_loop k < tstart + timeout")
    case False
    then show ?thesis by simp
  next
    case True
    with Cons.prems(2) have later: "\<exists>k \<in> set ks. tstart + timeout \<le> t_loop k" by auto
    from Cons.prems(3) have quiet: "\<forall>k \<in> set ks. call f k = None" and now: "call f k = None"
      by auto
    note step = wait_speed_vector_loop_step [OF True now m]
    show ?thesis
    proof (cases "speed_vector_in_tolerance tx ty tz accuracy (message k)")
      case False
      with Cons.prems(1) True
      have "short_runs S (speed_vector_in_tolerance tx ty tz accuracy) None
              (before_deadline tstart timeout ks)"
        by (simp add: before_deadline_def)
      from Cons.IH [OF this later quiet] False show ?thesis
        by (simp add: step del: wait_speed_vector_loop.simps)
    next
      case ok: True
      let ?s = "case ds of None \<Rightarrow> t_start k | Some d \<Rightarrow> d"
      from Cons.prems(1) True ok
      have short: "t_check k - ?s < S"
        and "short_runs S (speed_vector_in_tolerance tx ty tz accuracy) (Some ?s)
               (before_deadline tstart timeout ks)"
        by (simp_all add: before_deadline_def Let_def)
      from Cons.IH [OF this(2) later quiet] ok short show ?thesis
        by (simp add: step del: wait_speed_vector_loop.simps)
    qed
  qed
qed

subsection \<open>Position waits and the waypoint wait: passes that change nothing\<close>

lemma wait_distance_loop_short_of_target:
  "0 \<le> accuracy \<Longrightarrow>
   \<forall>p \<in> set pre. fst p < tstart + timeout \<and> get_distance start (snd p) < distance - accuracy \<Longrightarrow>
   wait_distance_loop distance accuracy timeout tstart start (pre @ ps) =
     wait_distance_loop distance accuracy timeout tstart start ps"
proof (induction pre)
  case Nil
  then show ?case by simp
next
  case (Cons p pre)
  obtain t pos where p: "p = (t, pos)" by (cases p)
  from Cons.prems p have "t < tstart + timeout" and "get_distance start pos < distance - accuracy"
    by auto
  with Cons.prems(1) have "\<not> \<bar>get_distance start pos - distance\<bar> \<le> accuracy"
    and "\<not> get_distance start pos > distance + accuracy"
    by auto
  with Cons p \<open>t < tstart + timeout\<close> show ?case by (simp add: Let_def)
qed

lemma wait_location_loop_raises:
  "wait_location_loop loc accuracy timeout target height_accuracy tstart polls = Some (Inl e) \<Longrightarrow>
   e = WaitLocationTimeout \<and> (\<exists>p \<in> set polls. tstart + timeout \<le> fst p)"
proof (induction polls)
  case Nil
  then show ?case by simp
next
  case (Cons p polls)
  obtain t pos where p: "p = (t, pos)" by (cases p)
  show ?case
  proof (cases "t < tstart + timeout")
    case False
    with Cons.prems p show ?thesis by simp
  next
    case True
    with Cons.prems p
    have "wait_location_loop loc accuracy timeout target height_accuracy tstart polls = Some (Inl e)"
      by (simp add: Let_def split: if_splits)
    from Cons.IH [OF this] show ?thesis by simp
  qed
qed




subsection \<open>The sustained waits in double precision: the run that ends the wait\<close>

lemma wait_heading_loop_fp_step:
  "t_loop k < tstart + timeout \<Longrightarrow> call f k = None \<Longrightarrow>
   wait_heading_loop_fp fsub heading accuracy S timeout f tstart ds mean prev cnt (k # ks) =
     (if heading_in_tolerance heading accuracy (message k) then
        (if S < fsub (t_check k) (case ds of None \<Rightarrow> t_start k | Some d \<Rightarrow> d) then
           Some (Inr (if heading \<ge> accuracy then (mean + message k) / (cnt + 1) else message k))
         else wait_heading_loop_fp fsub heading accuracy S timeout f tstart
                (Some (case ds of None \<Rightarrow> t_start k | Some d \<Rightarrow> d))
                (mean + message k) (message k) (cnt + 1) ks)
      else wait_heading_loop_fp fsub heading accuracy S timeout f tstart None 0 (message k) 0 ks)"
  by (simp add: heading_in_tolerance_def Let_def)

lemma wait_heading_loop_fp_attains:
  "\<forall>j \<in> set (run @ [k]). t_loop j < tstart + timeout \<and> call f j = None \<and>
      heading_in_tolerance heading accuracy (message j) \<Longrightarrow>
   start = (case ds of None \<Rightarrow> t_start (hd (run @ [k])) | Some d \<Rightarrow> d) \<Longrightarrow>
   \<forall>j \<in> set run. fsub (t_check j) start \<le> S \<Longrightarrow>
   S < fsub (t_check k) start \<Longrightarrow>
   wait_heading_loop_fp fsub heading accuracy S timeout f tstart ds mean prev cnt (run @ k # rest) =
     Some (Inr (if heading \<ge> accuracy
                then (mean + sum_list (map message (run @ [k]))) / (cnt + real (length (run @ [k])))
                else message k))"
proof (induction run arbitrary: ds mean prev cnt)
  case Nil
  from Nil.prems(1) have k: "t_loop k < tstart + timeout" "call f k = None"
    and ok: "heading_in_tolerance heading accuracy (message k)"
    by auto
  from Nil.prems(2) have "start = (case ds of None \<Rightarrow> t_start k | Some d \<Rightarrow> d)"
    by (cases ds) simp_all
  with Nil.prems(4) ok show ?case
    by (simp add: wait_heading_loop_fp_step [OF k] del: wait_heading_loop_fp.simps)
next
  case (Cons j run)
  from Cons.prems(1)
  have rest: "\<forall>i \<in> set (run @ [k]). t_loop i < tstart + timeout \<and> call f i = None \<and>
      heading_in_tolerance heading accuracy (message i)"
    and j: "t_loop j < tstart + timeout" "call f j = None"
      "heading_in_tolerance heading accuracy (message j)"
    by auto
  from Cons.prems(2) have start: "start = (case ds of None \<Rightarrow> t_start j | Some d \<Rightarrow> d)"
    by (cases ds) simp_all
  then have start': "start = (case Some start of None \<Rightarrow> t_start (hd (run @ [k])) | Some d \<Rightarrow> d)"
    by simp
  from Cons.prems(3) have short: "fsub (t_check j) start \<le> S" and shorts: "\<forall>i \<in> set run. fsub (t_check i) start \<le> S"
    by auto
  have "wait_heading_loop_fp fsub heading accuracy S timeout f tstart ds mean prev cnt ((j # run) @ k # rest) =
        wait_heading_loop_fp fsub heading accuracy S timeout f tstart (Some start) (mean + message j)
          (message j) (cnt + 1) (run @ k # rest)"
    using j(3) short start
    by (simp add: wait_heading_loop_fp_step [OF j(1,2)] del: wait_heading_loop_fp.simps)
  also have "\<dots> = Some (Inr (if heading \<ge> accuracy
                then ((mean + message j) + sum_list (map message (run @ [k]))) /
                       ((cnt + 1) + real (length (run @ [k])))
                else message k))"
    by (rule Cons.IH [OF rest start' shorts Cons.prems(4)])
  finally show ?case by (simp add: add.assoc add.commute)
qed


lemma wait_yaw_speed_loop_fp_step:
  "t_loop k < tstart + timeout \<Longrightarrow> call f k = None \<Longrightarrow>
   wait_yaw_speed_loop_fp fsub target accuracy S timeout f tstart ds mean prev cnt (k # ks) =
     (if yaw_speed_in_tolerance target accuracy (message k) then
        (if S < fsub (t_check k) (case ds of None \<Rightarrow> t_start k | Some d \<Rightarrow> d) then
           Some (Inr ((mean + degrees (message k)) / (cnt + 1)))
         else wait_yaw_speed_loop_fp fsub target accuracy S timeout f tstart
                (Some (case ds of None \<Rightarrow> t_start k | Some d \<Rightarrow> d))
                (mean + degrees (message k)) (degrees (message k)) (cnt + 1) ks)
      else wait_yaw_speed_loop_fp fsub target accuracy S timeout f tstart None 0 (degrees (message k)) 0 ks)"
  by (simp add: yaw_speed_in_tolerance_def Let_def)

lemma wait_yaw_speed_loop_fp_attains:
  "\<forall>j \<in> set (run @ [k]). t_loop j < tstart + timeout \<and> call f j = None \<and>
      yaw_speed_in_tolerance target accuracy (message j) \<Longrightarrow>
   start = (case ds of None \<Rightarrow> t_start (hd (run @ [k])) | Some d \<Rightarrow> d) \<Longrightarrow>
   \<forall>j \<in> set run. fsub (t_check j) start \<le> S \<Longrightarrow>
   S < fsub (t_check k) start \<Longrightarrow>
   wait_yaw_speed_loop_fp fsub target accuracy S timeout f tstart ds mean prev cnt (run @ k # rest) =
     Some (Inr ((mean + sum_list (map (\<lambda>j. degrees (message j)) (run @ [k]))) /
                (cnt + real (length (run @ [k])))))"
proof (induction run arbitrary: ds mean prev cnt)
  case Nil
  from Nil.prems(1) have k: "t_loop k < tstart + timeout" "call f k = None"
    and ok: "yaw_speed_in_tolerance target accuracy (message k)"
    by auto
  from Nil.prems(2) have "start = (case ds of None \<Rightarrow> t_start k | Some d \<Rightarrow> d)"
    by (cases ds) simp_all
  with Nil.prems(4) ok show ?case
    by (simp add: wait_yaw_speed_loop_fp_step [OF k] del: wait_yaw_speed_loop_fp.simps)
next
  case (Cons j run)
  from Cons.prems(1)
  have rest: "\<forall>i \<in> set (run @ [k]). t_loop i < tstart + timeout \<and> call f i = None \<and>
      yaw_speed_in_tolerance target accuracy (message i)"
    and j: "t_loop j < tstart + timeout" "call f j = None"
      "yaw_speed_in_tolerance target accuracy (message j)"
    by auto
  from Cons.prems(2) have start: "start = (case ds of None \<Rightarrow> t_start j | Some d \<Rightarrow> d)"
    by (cases ds) simp_all
  then have start': "start = (case Some start of None \<Rightarrow> t_start (hd (run @ [k])) | Some d \<Rightarrow> d)"
    by simp
  from Cons.prems(3) have short: "fsub (t_check j) start \<le> S" and shorts: "\<forall>i \<in> set run. fsub (t_check i) start \<le> S"
    by auto
  have "wait_yaw_speed_loop_fp fsub target accuracy S timeout f tstart ds mean prev cnt ((j # run) @ k # rest) =
        wait_yaw_speed_loop_fp fsub target accuracy S timeout f tstart (Some start)
          (mean + degrees (message j)) (degrees (message j)) (cnt + 1) (run @ k # rest)"
    using j(3) short start
    by (simp add: wait_yaw_speed_loop_fp_step [OF j(1,2)] del: wait_yaw_speed_loop_fp.simps)
  also have "\<dots> = Some (Inr (((mean + degrees (message j)) +
                  sum_list (map (\<lambda>j. degrees (message j)) (run @ [k]))) /
                ((cnt + 1) + real (length (run @ [k])))))"
    by (rule Cons.IH [OF rest start' shorts Cons.prems(4)])
  finally show ?case by (simp add: add.assoc add.commute)
qed


lemma wait_speed_vector_loop_fp_step:
  "t_loop k < tstart + timeout \<Longrightarrow> call f k = None \<Longrightarrow> message k = (vx, vy, vz) \<Longrightarrow>
   wait_speed_vector_loop_fp fsub tx ty tz accuracy S timeout f tstart ds mx my mz cnt (k # ks) =
     (if speed_vector_in_tolerance tx ty tz accuracy (message k) then
        (if S < fsub (t_check k) (case ds of None \<Rightarrow> t_start k | Some d \<Rightarrow> d) then
           Some (Inr ((mx + vx) / (cnt + 1), (my + vy) / (cnt + 1), (mz + vz) / (cnt + 1)))
         else wait_speed_vector_loop_fp fsub tx ty tz accuracy S timeout f tstart
                (Some (case ds of None \<Rightarrow> t_start k | Some d \<Rightarrow> d))
                (mx + vx) (my + vy) (mz + vz) (cnt + 1) ks)
      else wait_speed_vector_loop_fp fsub tx ty tz accuracy S timeout f tstart None 0 0 0 0 ks)"
  by (simp add: speed_vector_in_tolerance_def Let_def)

lemma wait_speed_vector_loop_fp_attains:
  "\<forall>j \<in> set (run @ [k]). t_loop j < tstart + timeout \<and> call f j = None \<and>
      speed_vector_in_tolerance tx ty tz accuracy (message j) \<Longrightarrow>
   start = (case ds of None \<Rightarrow> t_start (hd (run @ [k])) | Some d \<Rightarrow> d) \<Longrightarrow>
   \<forall>j \<in> set run. fsub (t_check j) start \<le> S \<Longrightarrow>
   S < fsub (t_check k) start \<Longrightarrow>
   wait_speed_vector_loop_fp fsub tx ty tz accuracy S timeout f tstart ds mx my mz cnt (run @ k # rest) =
     Some (Inr ((mx + sum_list (map (\<lambda>j. fst (message j)) (run @ [k]))) /
                  (cnt + real (length (run @ [k]))),
                (my + sum_list (map (\<lambda>j. fst (snd (message j))) (run @ [k]))) /
                  (cnt + real (length (run @ [k]))),
                (mz + sum_list (map (\<lambda>j. snd (snd (message j))) (run @ [k]))) /
                  (cnt + real (length (run @ [k])))))"
proof (induction run arbitrary: ds mx my mz cnt)
  case Nil
  obtain vx vy vz where m: "message k = (vx, vy, vz)" by (cases "message k") auto
  from Nil.prems(1) have k: "t_loop k < tstart + timeout" "call f k = None"
    and ok: "speed_vector_in_tolerance tx ty tz accuracy (message k)"
    by auto
  from Nil.prems(2) have "start = (case ds of None \<Rightarrow> t_start k | Some d \<Rightarrow> d)"
    by (cases ds) simp_all
  with Nil.prems(4) ok m show ?case
    by (simp add: wait_speed_vector_loop_fp_step [OF k m] del: wait_speed_vector_loop_fp.simps)
next
  case (Cons j run)
  obtain vx vy vz where m: "message j = (vx, vy, vz)" by (cases "message j") auto
  from Cons.prems(1)
  have rest: "\<forall>i \<in> set (run @ [k]). t_loop i < tstart + timeout \<and> call f i = None \<and>
      speed_vector_in_tolerance tx ty tz accuracy (message i)"
    and j: "t_loop j < tstart + timeout" "call f j = None"
      "speed_vector_in_tolerance tx ty tz accuracy (message j)"
    by auto
  from Cons.prems(2) have start: "start = (case ds of None \<Rightarrow> t_start j | Some d \<Rightarrow> d)"
    by (cases ds) simp_all
  then have start': "start = (case Some start of None \<Rightarrow> t_start (hd (run @ [k])) | Some d \<Rightarrow> d)"
    by simp
  from Cons.prems(3) have short: "fsub (t_check j) start \<le> S"
    and shorts: "\<forall>i \<in> set run. fsub (t_check i) start \<le> S"
    by auto
  have "wait_speed_vector_loop_fp fsub tx ty tz accuracy S timeout f tstart ds mx my mz cnt
          ((j # run) @ k # rest) =
        wait_speed_vector_loop_fp fsub tx ty tz accuracy S timeout f tstart (Some start)
          (mx + vx) (my + vy) (mz + vz) (cnt + 1) (run @ k # rest)"
    using j(3) short start
    by (simp add: wait_speed_vector_loop_fp_step [OF j(1,2) m] del: wait_speed_vector_loop_fp.simps)
  also note Cons.IH [OF rest start' shorts Cons.prems(4)]
  finally show ?case using m by (simp add: add.assoc add.commute)
qed

text \<open>With the exact difference for \<open>fsub\<close> these are the loops of the sections before.\<close>

lemma wait_heading_loop_fp_exact:
  "wait_heading_loop_fp (-) heading accuracy S timeout f tstart ds mean prev cnt ticks =
   wait_heading_loop heading accuracy S timeout f tstart ds mean prev cnt ticks"
proof (induction ticks arbitrary: ds mean prev cnt)
  case Nil
  show ?case by simp
next
  case (Cons k ks)
  show ?case
  proof (cases "t_loop k < tstart + timeout")
    case False
    then show ?thesis by simp
  next
    case True
    show ?thesis
    proof (cases "call f k")
      case (Some e)
      with True show ?thesis by simp
    next
      case None
      show ?thesis
        by (simp add: wait_heading_loop_fp_step [OF True None] wait_heading_loop_step [OF True None]
            Cons.IH del: wait_heading_loop_fp.simps wait_heading_loop.simps)
    qed
  qed
qed

lemma wait_yaw_speed_loop_fp_exact:
  "wait_yaw_speed_loop_fp (-) target accuracy S timeout f tstart ds mean prev cnt ticks =
   wait_yaw_speed_loop target accuracy S timeout f tstart ds mean prev cnt ticks"
proof (induction ticks arbitrary: ds mean prev cnt)
  case Nil
  show ?case by simp
next
  case (Cons k ks)
  show ?case
  proof (cases "t_loop k < tstart + timeout")
    case False
    then show ?thesis by simp
  next
    case True
    show ?thesis
    proof (cases "call f k")
      case (Some e)
      with True show ?thesis by simp
    next
      case None
      show ?thesis
        by (simp add: wait_yaw_speed_loop_fp_step [OF True None] wait_yaw_speed_loop_step [OF True None]
            Cons.IH del: wait_yaw_speed_loop_fp.simps wait_yaw_speed_loop.simps)
    qed
  qed
qed

lemma wait_speed_vector_loop_fp_exact:
  "wait_speed_vector_loop_fp (-) tx ty tz accuracy S timeout f tstart ds mx my mz cnt ticks =
   wait_speed_vector_loop tx ty tz accuracy S timeout f tstart ds mx my mz cnt ticks"
proof (induction ticks arbitrary: ds mx my mz cnt)
  case Nil
  show ?case by simp
next
  case (Cons k ks)
  obtain vx vy vz where m: "message k = (vx, vy, vz)" by (cases "message k") auto
  show ?case
  proof (cases "t_loop k < tstart + timeout")
    case False
    then show ?thesis by simp
  next
    case True
    show ?thesis
    proof (cases "call f k")
      case (Some e)
      with True show ?thesis by simp
    next
      case None
      show ?thesis
        by (simp add: wait_speed_vector_loop_fp_step [OF True None m] wait_speed_vector_loop_step [OF True None m]
            Cons.IH del: wait_speed_vector_loop_fp.simps wait_speed_vector_loop.simps)
    qed
  qed
qed

subsection \<open>run_cmd: acknowledgments\<close>

lemma run_cmd_loop_skip:
  "\<forall>a \<in> set pre. ack_command a \<noteq> cmd \<Longrightarrow>
   run_cmd_loop cmd want (pre @ ms) = run_cmd_loop cmd want ms"
  by (induction pre) simp_all

text \<open>
  Claim C7. \<open>run_cmd\<close> sends the command once, drops every acknowledgment whose command
  identifier is not the one sent and goes on waiting (on acknowledgments of other commands
  only, it never returns). At the first acknowledgment with the command's identifier it
  stops reading: it returns normally when the result code is \<open>want_result\<close> and raises
  \<open>ValueError\<close> when it is not; the acknowledgments behind it stay unread.
\<close>

theorem run_cmd_first_matching_ack:
  "\<forall>a \<in> set pre. ack_command a \<noteq> cmd \<Longrightarrow>
   run_cmd cmd p1 p2 p3 p4 p5 p6 p7 want \<lparr>outbox = out, inbox = pre\<rparr> = None \<and>
   (ack_command m = cmd \<longrightarrow>
      run_cmd cmd p1 p2 p3 p4 p5 p6 p7 want \<lparr>outbox = out, inbox = pre @ m # rest\<rparr> =
        Some (if ack_result m = want then Inr () else Inl ValueError,
              \<lparr>outbox = out @ [\<lparr>target_system = 1, target_component = 1, command = cmd,
                 confirmation = 1, params = [p1, p2, p3, p4, p5, p6, p7]\<rparr>],
               inbox = rest\<rparr>))"
proof -
  assume pre: "\<forall>a \<in> set pre. ack_command a \<noteq> cmd"
  have "run_cmd_loop cmd want (pre @ []) = run_cmd_loop cmd want []"
    using pre by (rule run_cmd_loop_skip)
  moreover have "run_cmd_loop cmd want (pre @ m # rest) = run_cmd_loop cmd want (m # rest)"
    using pre by (rule run_cmd_loop_skip)
  ultimately show ?thesis
    by (simp add: run_cmd_def)
qed

theorem run_cmd_first_matching_ack_witness:
  "ack_command \<lparr>ack_command = 11, ack_result = 0\<rparr> \<noteq> 400 \<and>
   ack_command \<lparr>ack_command = 22, ack_result = 4\<rparr> \<noteq> 400 \<and>
   run_cmd 400 1 0 0 0 0 0 0 MAV_RESULT_ACCEPTED
     \<lparr>outbox = [], inbox = [\<lparr>ack_command = 11, ack_result = 0\<rparr>,
                            \<lparr>ack_command = 22, ack_result = 4\<rparr>]\<rparr> = None \<and>
   run_cmd 400 1 0 0 0 0 0 0 MAV_RESULT_ACCEPTED
     \<lparr>outbox = [], inbox = [\<lparr>ack_command = 11, ack_result = 0\<rparr>,
                            \<lparr>ack_command = 22, ack_result = 4\<rparr>,
                            \<lparr>ack_command = 400, ack_result = 4\<rparr>,
                            \<lparr>ack_command = 400, ack_result = 0\<rparr>]\<rparr> =
     Some (Inl ValueError,
           \<lparr>outbox = [\<lparr>target_system = 1, target_component = 1, command = 400,
              confirmation = 1, params = [1, 0, 0, 0, 0, 0, 0]\<rparr>],
            inbox = [\<lparr>ack_command = 400, ack_result = 0\<rparr>]\<rparr>)"
  using run_cmd_first_matching_ack
    [of "[\<lparr>ack_command = 11, ack_result = 0\<rparr>, \<lparr>ack_command = 22, ack_result = 4\<rparr>]"
        400 1 0 0 0 0 0 0 MAV_RESULT_ACCEPTED "[]"
        "\<lparr>ack_command = 400, ack_result = 4\<rparr>" "[\<lparr>ack_command = 400, ack_result = 0\<rparr>]"]
  by (simp add: MAV_RESULT_ACCEPTED_def)

subsection \<open>context_pop: a failed restore\<close>

text \<open>
  Claim C1, as the code has it. \<open>context_pop\<close> takes the current context off the stack
  and restores its pairs newest first, and the first restore that raises ends it: when
  the pairs \<open>restored\<close> went through and \<open>set_parameter\<close> raises \<open>e\<close> on the next
  pair, \<open>context_pop\<close> raises \<open>e\<close> from the very state that \<open>set_parameter\<close> left, so
  the pairs recorded before it (\<open>remaining\<close>) are not attempted. No error is kept for
  later.
\<close>

theorem context_pop_stops_at_first_failure:
  "contexts s = cs @ [dead] \<Longrightarrow>
   rev (parameters dead) = restored @ (name, old_value) # remaining \<Longrightarrow>
   context_pop_loop px restored (s\<lparr>contexts := cs\<rparr>) = (Inr (), s1) \<Longrightarrow>
   set_parameter px name old_value False s1 = (Inl e, s2) \<Longrightarrow>
   context_pop px s = (Inl e, s2) \<and> contexts s2 = cs"
proof -
  assume top: "contexts s = cs @ [dead]"
    and order: "rev (parameters dead) = restored @ (name, old_value) # remaining"
    and went: "context_pop_loop px restored (s\<lparr>contexts := cs\<rparr>) = (Inr (), s1)"
    and fails: "set_parameter px name old_value False s1 = (Inl e, s2)"
  have "context_pop px s = context_pop_loop px (restored @ (name, old_value) # remaining) (s\<lparr>contexts := cs\<rparr>)"
    using context_pop_last [OF top] order by simp
  also have "\<dots> = (Inl e, s2)"
    using went fails by (simp add: context_pop_loop_append)
  finally have "context_pop px s = (Inl e, s2)" .
  moreover from context_pop_loop_contexts [OF went] set_parameter_raises [OF fails]
  have "contexts s2 = cs" by simp
  ultimately show ?thesis by simp
qed

text \<open>
  On the bench: the context holds A, B and X, the write that restores X arrives and the
  nine that would restore B are lost. \<open>context_pop\<close> raises \<open>ValueError\<close>; A keeps
  the value 10 the test gave it, and no \<open>param set A\<close> was ever sent.
\<close>

theorem context_pop_stops_at_first_failure_witness:
  "context_pop sitl
     (bench [False, True, True, True, True, True, True, True, True, True]
        [(''A'', Some 1), (''B'', Some 2), (''X'', Some 4)]) =
   (Inl ValueError,
    snd (set_parameter sitl ''B'' (Some 2) False
      (snd (context_pop_loop sitl [(''X'', Some 4)]
        ((bench [False, True, True, True, True, True, True, True, True, True]
            [(''A'', Some 1), (''B'', Some 2), (''X'', Some 4)])\<lparr>contexts := [Context []]\<rparr>)))))"
proof -
  let ?s = "bench [False, True, True, True, True, True, True, True, True, True]
              [(''A'', Some 1), (''B'', Some 2), (''X'', Some 4)]"
  let ?s1 = "snd (context_pop_loop sitl [(''X'', Some 4)] (?s\<lparr>contexts := [Context []]\<rparr>))"
  let ?s2 = "snd (set_parameter sitl ''B'' (Some 2) False ?s1)"
  have top: "contexts ?s = [Context []] @ [Context [(''A'', Some 1), (''B'', Some 2), (''X'', Some 4)]]"
    by (simp add: bench_def)
  have order: "rev (parameters (Context [(''A'', Some 1), (''B'', Some 2), (''X'', Some 4)])) =
                 [(''X'', Some 4)] @ (''B'', Some 2) # [(''A'', Some 1)]"
    by simp
  have "fst (context_pop_loop sitl [(''X'', Some 4)] (?s\<lparr>contexts := [Context []]\<rparr>)) = Inr ()"
    by code_simp
  then have went: "context_pop_loop sitl [(''X'', Some 4)] (?s\<lparr>contexts := [Context []]\<rparr>) = (Inr (), ?s1)"
    by (simp add: prod_eq_iff)
  have "fst (set_parameter sitl ''B'' (Some 2) False ?s1) = Inl ValueError"
    by code_simp
  then have fails: "set_parameter sitl ''B'' (Some 2) False ?s1 = (Inl ValueError, ?s2)"
    by (simp add: prod_eq_iff)
  from context_pop_stops_at_first_failure [OF top order went fails]
  show ?thesis by simp
qed

theorem context_pop_abandons_remaining_pairs:
  "fst (context_pop sitl
     (bench [False, True, True, True, True, True, True, True, True, True]
        [(''A'', Some 1), (''B'', Some 2), (''X'', Some 4)])) = Inl ValueError \<and>
   store (link (snd (context_pop sitl
     (bench [False, True, True, True, True, True, True, True, True, True]
        [(''A'', Some 1), (''B'', Some 2), (''X'', Some 4)])))) ''A'' = Some 10 \<and>
   ParamSet ''A'' (Some 1) \<notin> set (sent (link (snd (context_pop sitl
     (bench [False, True, True, True, True, True, True, True, True, True]
        [(''A'', Some 1), (''B'', Some 2), (''X'', Some 4)])))))"
  by code_simp

subsection \<open>set_parameter: what goes into the context\<close>

text \<open>
  Claim C2, as the code has it. \<open>set_parameter\<close> does not look into the context before
  it appends: every call that returns with recording enabled appends the pair of the
  name and the value that \<open>get_parameter(name, retry=2)\<close> returned at the start of that
  call (\<open>None\<close> when both fetches went unanswered), whether or not the context holds the
  name already. Two such calls on one name leave two pairs at the end of the current
  context, and the rest of the stack as it was.
\<close>

theorem set_parameter_appends_on_every_call:
  "set_parameter px name val1 True s = (Inr (), s1) \<Longrightarrow>
   set_parameter px name val2 True s1 = (Inr (), s2) \<Longrightarrow>
   \<exists>old1 old2 w1 w2.
     get_parameter px name 2 60 (link s) = (Inr old1, w1) \<and>
     get_parameter px name 2 60 (link s1) = (Inr old2, w2) \<and>
     contexts s \<noteq> [] \<and>
     contexts s1 =
       butlast (contexts s) @ [Context (parameters (last (contexts s)) @ [(name, old1)])] \<and>
     contexts s2 =
       butlast (contexts s) @
         [Context (parameters (last (contexts s)) @ [(name, old1), (name, old2)])]"
proof -
  assume first: "set_parameter px name val1 True s = (Inr (), s1)"
    and second: "set_parameter px name val2 True s1 = (Inr (), s2)"
  from set_parameter_returns [OF first]
  obtain old1 w1 where g1: "get_parameter px name 2 60 (link s) = (Inr old1, w1)"
    and ne: "contexts s \<noteq> []"
    and c1: "contexts s1 = append_to_context (name, old1) (contexts s)"
    by auto
  from set_parameter_returns [OF second]
  obtain old2 w2 where g2: "get_parameter px name 2 60 (link s1) = (Inr old2, w2)"
    and c2: "contexts s2 = append_to_context (name, old2) (contexts s1)"
    by auto
  from c1 c2
  have "contexts s1 =
          butlast (contexts s) @ [Context (parameters (last (contexts s)) @ [(name, old1)])]"
    and "contexts s2 =
          butlast (contexts s) @
            [Context (parameters (last (contexts s)) @ [(name, old1), (name, old2)])]"
    by (simp_all add: append_to_context_def)
  with g1 g2 ne show ?thesis by blast
qed

text \<open>
  On the bench, with every write arriving: X is 3, the test writes 7 and then 8 with an
  empty current context, and the context then holds (X, 3) and (X, 7).
\<close>

theorem set_parameter_appends_on_every_call_witness:
  "fst (set_parameter sitl ''X'' (Some 7) True (bench [] [])) = Inr () \<and>
   fst (set_parameter sitl ''X'' (Some 8) True
          (snd (set_parameter sitl ''X'' (Some 7) True (bench [] [])))) = Inr () \<and>
   fst (get_parameter sitl ''X'' 2 60 (link (bench [] []))) = Inr (Some 3) \<and>
   fst (get_parameter sitl ''X'' 2 60
          (link (snd (set_parameter sitl ''X'' (Some 7) True (bench [] []))))) = Inr (Some 7) \<and>
   contexts (snd (set_parameter sitl ''X'' (Some 8) True
          (snd (set_parameter sitl ''X'' (Some 7) True (bench [] []))))) =
     butlast (contexts (bench [] [])) @
       [Context (parameters (last (contexts (bench [] []))) @
                   [(''X'', Some 3), (''X'', Some 7)])]"
proof -
  let ?s1 = "snd (set_parameter sitl ''X'' (Some 7) True (bench [] []))"
  let ?s2 = "snd (set_parameter sitl ''X'' (Some 8) True ?s1)"
  have r1: "fst (set_parameter sitl ''X'' (Some 7) True (bench [] [])) = Inr ()"
    by code_simp
  then have first: "set_parameter sitl ''X'' (Some 7) True (bench [] []) = (Inr (), ?s1)"
    by (simp add: prod_eq_iff)
  have r2: "fst (set_parameter sitl ''X'' (Some 8) True ?s1) = Inr ()"
    by code_simp
  then have second: "set_parameter sitl ''X'' (Some 8) True ?s1 = (Inr (), ?s2)"
    by (simp add: prod_eq_iff)
  have g1: "fst (get_parameter sitl ''X'' 2 60 (link (bench [] []))) = Inr (Some 3)"
    by code_simp
  have g2: "fst (get_parameter sitl ''X'' 2 60 (link ?s1)) = Inr (Some 7)"
    by code_simp
  from set_parameter_appends_on_every_call [OF first second]
  obtain old1 old2 w1 w2 where
    "get_parameter sitl ''X'' 2 60 (link (bench [] [])) = (Inr old1, w1)"
    "get_parameter sitl ''X'' 2 60 (link ?s1) = (Inr old2, w2)"
    and c: "contexts ?s2 =
      butlast (contexts (bench [] [])) @
        [Context (parameters (last (contexts (bench [] []))) @ [(''X'', old1), (''X'', old2)])]"
    by blast
  with g1 g2 have "old1 = Some 3" "old2 = Some 7" by simp_all
  with c r1 r2 g1 g2 show ?thesis by simp
qed

text \<open>
  The same run read off: both calls return, and the second one has appended the pair
  (X, 7) behind the pair (X, 3) of the first.
\<close>

theorem set_parameter_second_call_appends:
  "fst (set_parameter sitl ''X'' (Some 7) True (bench [] [])) = Inr () \<and>
   contexts (snd (set_parameter sitl ''X'' (Some 7) True (bench [] []))) =
     [Context [], Context [(''X'', Some 3)]] \<and>
   fst (set_parameter sitl ''X'' (Some 8) True
          (snd (set_parameter sitl ''X'' (Some 7) True (bench [] [])))) = Inr () \<and>
   contexts (snd (set_parameter sitl ''X'' (Some 8) True
          (snd (set_parameter sitl ''X'' (Some 7) True (bench [] []))))) =
     [Context [], Context [(''X'', Some 3), (''X'', Some 7)]]"
  by code_simp

subsection \<open>push, writes, pop: the round trip\<close>

text \<open>
  Claim C3. On the vehicle, whatever writes and replies it loses: when X is \<open>v0\<close> before
  \<open>context_push\<close>, the test then writes X one or more times and every write returns, and
  \<open>context_pop\<close> returns, X is \<open>v0\<close> again and the stack is the one before the push. The
  pairs of the later writes carry intermediate values; the pair restored last is the one
  recorded first.
\<close>

theorem context_round_trip:
  "store (link s) name = Some v0 \<Longrightarrow> vs \<noteq> [] \<Longrightarrow>
   set_parameter_seq sitl name vs (context_push s) = (Inr (), s1) \<Longrightarrow>
   context_pop sitl s1 = (Inr (), s2) \<Longrightarrow>
   store (link s2) name = Some v0 \<and> contexts s2 = contexts s"
proof -
  assume pre: "store (link s) name = Some v0" and ne: "vs \<noteq> []"
    and writes: "set_parameter_seq sitl name vs (context_push s) = (Inr (), s1)"
    and pop: "context_pop sitl s1 = (Inr (), s2)"
  from ne obtain v vs' where vs: "vs = v # vs'" by (cases vs) auto
  obtain r sa where first: "set_parameter sitl name (Some v) True (context_push s) = (r, sa)"
    by (cases "set_parameter sitl name (Some v) True (context_push s)")
  with writes vs have r: "r = Inr ()" and rest: "set_parameter_seq sitl name vs' sa = (Inr (), s1)"
    by (auto split: sum.splits)
  from set_parameter_returns [OF first [unfolded r]]
  obtain old w where g: "get_parameter sitl name 2 60 (link (context_push s)) = (Inr old, w)"
    and ca: "contexts sa = append_to_context (name, old) (contexts (context_push s))"
    by auto
  from vehicle_get_parameter [OF g] pre have old: "old = None \<or> old = Some v0"
    by (auto simp: context_push_def)
  from ca have "contexts sa = contexts s @ [Context [(name, old)]]"
    by (simp add: append_to_context_def context_push_def)
  from set_parameter_seq_contexts [OF rest this]
  obtain qs where c1: "contexts s1 = contexts s @ [Context ((name, old) # qs)]" by auto
  from pop context_pop_last [OF c1, of sitl]
  have "context_pop_loop sitl (rev qs @ [(name, old)]) (s1\<lparr>contexts := contexts s\<rparr>) = (Inr (), s2)"
    by simp
  from context_pop_loop_last [OF this] context_pop_loop_contexts [OF this]
  obtain s'' where "set_parameter sitl name old False s'' = (Inr (), s2)"
    and c2: "contexts s2 = contexts s" by auto
  from vehicle_set_parameter [OF this(1)] old
  have "store (link s2) name = Some v0" by auto
  with c2 show ?thesis by simp
qed

text \<open>
  On the bench, the first write of the test lost and sent again: X is 3, the test writes
  7 and 8, the pop writes 7 and then 3.
\<close>

theorem context_round_trip_witness:
  "store (link (bench [True] [])) ''X'' = Some 3 \<and>
   fst (set_parameter_seq sitl ''X'' [7, 8] (context_push (bench [True] []))) = Inr () \<and>
   store (link (snd (set_parameter_seq sitl ''X'' [7, 8] (context_push (bench [True] []))))) ''X'' =
     Some 8 \<and>
   fst (context_pop sitl
          (snd (set_parameter_seq sitl ''X'' [7, 8] (context_push (bench [True] []))))) = Inr () \<and>
   store (link (snd (context_pop sitl
          (snd (set_parameter_seq sitl ''X'' [7, 8] (context_push (bench [True] []))))))) ''X'' =
     Some 3 \<and>
   contexts (snd (context_pop sitl
          (snd (set_parameter_seq sitl ''X'' [7, 8] (context_push (bench [True] [])))))) =
     contexts (bench [True] [])"
proof -
  let ?s = "bench [True] []"
  let ?s1 = "snd (set_parameter_seq sitl ''X'' [7, 8] (context_push ?s))"
  let ?s2 = "snd (context_pop sitl ?s1)"
  have pre: "store (link ?s) ''X'' = Some 3"
    by (simp add: bench_def bench_vehicle_def)
  have ne: "[7, 8] \<noteq> ([] :: real list)" by simp
  have w: "fst (set_parameter_seq sitl ''X'' [7, 8] (context_push ?s)) = Inr ()"
    by code_simp
  then have writes: "set_parameter_seq sitl ''X'' [7, 8] (context_push ?s) = (Inr (), ?s1)"
    by (simp add: prod_eq_iff)
  have mid: "store (link ?s1) ''X'' = Some 8"
    by code_simp
  have p: "fst (context_pop sitl ?s1) = Inr ()"
    by code_simp
  then have pop: "context_pop sitl ?s1 = (Inr (), ?s2)"
    by (simp add: prod_eq_iff)
  from context_round_trip [OF pre ne writes pop] pre w mid p
  show ?thesis by simp
qed

subsection \<open>set_parameter: the read-back never matches\<close>

text \<open>
  Claim C9. Let \<open>old\<close> be what \<open>get_parameter(name, retry=2)\<close> returns at the start of
  \<open>set_parameter(name, v)\<close>, before any write is sent. When none of the nine read-backs
  is exactly \<open>v\<close>, the call raises. A call that raises leaves the contexts as they were. A
  recording call that returns leaves the stack with one pair more at the end of its last
  context, the pair of the name and \<open>old\<close>, and nothing else changed.
\<close>

theorem set_parameter_read_back_mismatch:
  "get_parameter px name 2 60 (link s) = (old, w) \<Longrightarrow>
   (Inr (Some v) \<notin> set (read_backs px name (Some v) 9 w) \<longrightarrow>
      (\<exists>e. fst (set_parameter px name (Some v) add s) = Inl e)) \<and>
   (\<forall>e s'. set_parameter px name val add s = (Inl e, s') \<longrightarrow> contexts s' = contexts s) \<and>
   (\<forall>s'. set_parameter px name val True s = (Inr (), s') \<longrightarrow>
      (\<exists>old_value. old = Inr old_value \<and> contexts s \<noteq> [] \<and>
         contexts s' =
           butlast (contexts s) @
             [Context (parameters (last (contexts s)) @ [(name, old_value)])]))"
proof (intro conjI allI impI)
  assume g: "get_parameter px name 2 60 (link s) = (old, w)"
  assume nb: "Inr (Some v) \<notin> set (read_backs px name (Some v) 9 w)"
  show "\<exists>e. fst (set_parameter px name (Some v) add s) = Inl e"
  proof (cases old)
    case (Inl e)
    with g show ?thesis by (simp add: set_parameter_def)
  next
    case (Inr old_value)
    from nb have "Inr (Some v) \<notin> set (read_backs px name (Some v) 9 (link (s\<lparr>link := w\<rparr>)))"
      by simp
    from set_parameter_loop_no_read_back [OF this] Inr g show ?thesis
      by (simp add: set_parameter_def)
  qed
next
  fix e s'
  assume "set_parameter px name val add s = (Inl e, s')"
  then show "contexts s' = contexts s" by (rule set_parameter_raises)
next
  fix s'
  assume g: "get_parameter px name 2 60 (link s) = (old, w)"
  assume "set_parameter px name val True s = (Inr (), s')"
  from set_parameter_returns [OF this] g
  show "\<exists>old_value. old = Inr old_value \<and> contexts s \<noteq> [] \<and>
         contexts s' =
           butlast (contexts s) @
             [Context (parameters (last (contexts s)) @ [(name, old_value)])]"
    by (auto simp: append_to_context_def)
qed

text \<open>
  On the bench: with nine writes lost, writing 7 to X (which is 3) raises \<open>ValueError\<close>
  and the contexts stay; with two writes lost the third read-back is 7 and the pair
  (X, 3) is appended to the empty current context.
\<close>

theorem set_parameter_read_back_mismatch_witness:
  "fst (get_parameter sitl ''X'' 2 60
     (link (bench [True, True, True, True, True, True, True, True, True] []))) = Inr (Some 3) \<and>
   Inr (Some 7) \<notin> set (read_backs sitl ''X'' (Some 7) 9 (snd (get_parameter sitl ''X'' 2 60
     (link (bench [True, True, True, True, True, True, True, True, True] []))))) \<and>
   fst (set_parameter sitl ''X'' (Some 7) True
     (bench [True, True, True, True, True, True, True, True, True] [])) = Inl ValueError \<and>
   contexts (snd (set_parameter sitl ''X'' (Some 7) True
     (bench [True, True, True, True, True, True, True, True, True] []))) =
     [Context [], Context []] \<and>
   fst (get_parameter sitl ''X'' 2 60 (link (bench [True, True] []))) = Inr (Some 3) \<and>
   fst (set_parameter sitl ''X'' (Some 7) True (bench [True, True] [])) = Inr () \<and>
   contexts (bench [True, True] []) = [Context [], Context []] \<and>
   contexts (snd (set_parameter sitl ''X'' (Some 7) True (bench [True, True] []))) =
     [Context [], Context [(''X'', Some 3)]]"
proof -
  let ?s = "bench [True, True, True, True, True, True, True, True, True] []"
  let ?w = "snd (get_parameter sitl ''X'' 2 60 (link ?s))"
  let ?t = "bench [True, True] []"
  let ?u = "snd (get_parameter sitl ''X'' 2 60 (link ?t))"
  have g: "fst (get_parameter sitl ''X'' 2 60 (link ?s)) = Inr (Some 3)"
    by code_simp
  then have gs: "get_parameter sitl ''X'' 2 60 (link ?s) = (Inr (Some 3), ?w)"
    by (simp add: prod_eq_iff)
  have nb: "Inr (Some 7) \<notin> set (read_backs sitl ''X'' (Some 7) 9 ?w)"
    by code_simp
  have e: "fst (set_parameter sitl ''X'' (Some 7) True ?s) = Inl ValueError"
    by code_simp
  then have es: "set_parameter sitl ''X'' (Some 7) True ?s =
      (Inl ValueError, snd (set_parameter sitl ''X'' (Some 7) True ?s))"
    by (simp add: prod_eq_iff)
  have h: "fst (get_parameter sitl ''X'' 2 60 (link ?t)) = Inr (Some 3)"
    by code_simp
  then have gt: "get_parameter sitl ''X'' 2 60 (link ?t) = (Inr (Some 3), ?u)"
    by (simp add: prod_eq_iff)
  have r: "fst (set_parameter sitl ''X'' (Some 7) True ?t) = Inr ()"
    by code_simp
  then have rs: "set_parameter sitl ''X'' (Some 7) True ?t =
      (Inr (), snd (set_parameter sitl ''X'' (Some 7) True ?t))"
    by (simp add: prod_eq_iff)
  from set_parameter_read_back_mismatch [OF gs, of 7 True "Some 7"] es
  have "contexts (snd (set_parameter sitl ''X'' (Some 7) True ?s)) = contexts ?s"
    by blast
  moreover from set_parameter_read_back_mismatch [OF gt, of 7 True "Some 7"] rs
  have "contexts (snd (set_parameter sitl ''X'' (Some 7) True ?t)) =
          butlast (contexts ?t) @ [Context (parameters (last (contexts ?t)) @ [(''X'', Some 3)])]"
    by blast
  moreover have "contexts ?t = [Context [], Context []]" and "contexts ?s = [Context [], Context []]"
    by (simp_all add: bench_def)
  ultimately show ?thesis using g nb e h r by simp
qed

subsection \<open>Sustained waits: reset on break\<close>

text \<open>
  Claim C4. For \<open>wait_heading\<close>, \<open>wait_yaw_speed\<close> and \<open>wait_speed_vector\<close>: when
  every run of in-tolerance messages before the deadline lasts less than the minimum
  sustain time \<open>S\<close>, the deadline comes and the callback does not raise, the wait raises
  its timeout exception. A pass whose message is out of tolerance goes on with
  \<open>duration_start = None\<close>, the sum for the mean 0 and the counter 0, whatever they were.
\<close>

theorem sustained_wait_short_runs_time_out:
  "(short_runs S (heading_in_tolerance heading accuracy) None (before_deadline tstart timeout hs) \<and>
      (\<exists>k \<in> set hs. tstart + timeout \<le> t_loop k) \<and> (\<forall>k \<in> set hs. call fh k = None) \<longrightarrow>
      wait_heading heading accuracy S timeout fh tstart hs = Some (Inl WaitHeadingTimeout)) \<and>
   (short_runs S (yaw_speed_in_tolerance target accuracy) None (before_deadline tstart timeout ys) \<and>
      (\<exists>k \<in> set ys. tstart + timeout \<le> t_loop k) \<and> (\<forall>k \<in> set ys. call fy k = None) \<longrightarrow>
      wait_yaw_speed target accuracy S timeout fy tstart ys =
        Some (Inl YawSpeedNotAchievedException)) \<and>
   (short_runs S (speed_vector_in_tolerance tx ty tz accuracy) None
        (before_deadline tstart timeout vs) \<and>
      (\<exists>k \<in> set vs. tstart + timeout \<le> t_loop k) \<and> (\<forall>k \<in> set vs. call fv k = None) \<longrightarrow>
      wait_speed_vector tx ty tz accuracy S timeout fv tstart vs =
        Some (Inl SpeedVectorNotAchievedException)) \<and>
   (t_loop h < tstart + timeout \<and> call fh h = None \<and>
      \<not> heading_in_tolerance heading accuracy (message h) \<longrightarrow>
      wait_heading_loop heading accuracy S timeout fh tstart ds mean prev cnt (h # hs') =
        wait_heading_loop heading accuracy S timeout fh tstart None 0 (message h) 0 hs') \<and>
   (t_loop y < tstart + timeout \<and> call fy y = None \<and>
      \<not> yaw_speed_in_tolerance target accuracy (message y) \<longrightarrow>
      wait_yaw_speed_loop target accuracy S timeout fy tstart ds mean prev cnt (y # ys') =
        wait_yaw_speed_loop target accuracy S timeout fy tstart None 0 (degrees (message y)) 0 ys') \<and>
   (t_loop v < tstart + timeout \<and> call fv v = None \<and>
      \<not> speed_vector_in_tolerance tx ty tz accuracy (message v) \<longrightarrow>
      wait_speed_vector_loop tx ty tz accuracy S timeout fv tstart ds mx my mz cnt (v # vs') =
        wait_speed_vector_loop tx ty tz accuracy S timeout fv tstart None 0 0 0 0 vs')"
proof (intro conjI impI)
  assume "short_runs S (heading_in_tolerance heading accuracy) None (before_deadline tstart timeout hs) \<and>
      (\<exists>k \<in> set hs. tstart + timeout \<le> t_loop k) \<and> (\<forall>k \<in> set hs. call fh k = None)"
  then show "wait_heading heading accuracy S timeout fh tstart hs = Some (Inl WaitHeadingTimeout)"
    unfolding wait_heading_def by (intro wait_heading_loop_short_runs) simp_all
next
  assume "short_runs S (yaw_speed_in_tolerance target accuracy) None (before_deadline tstart timeout ys) \<and>
      (\<exists>k \<in> set ys. tstart + timeout \<le> t_loop k) \<and> (\<forall>k \<in> set ys. call fy k = None)"
  then show "wait_yaw_speed target accuracy S timeout fy tstart ys =
        Some (Inl YawSpeedNotAchievedException)"
    unfolding wait_yaw_speed_def by (intro wait_yaw_speed_loop_short_runs) simp_all
next
  assume "short_runs S (speed_vector_in_tolerance tx ty tz accuracy) None
        (before_deadline tstart timeout vs) \<and>
      (\<exists>k \<in> set vs. tstart + timeout \<le> t_loop k) \<and> (\<forall>k \<in> set vs. call fv k = None)"
  then show "wait_speed_vector tx ty tz accuracy S timeout fv tstart vs =
        Some (Inl SpeedVectorNotAchievedException)"
    unfolding wait_speed_vector_def by (intro wait_speed_vector_loop_short_runs) simp_all
next
  assume "t_loop h < tstart + timeout \<and> call fh h = None \<and>
      \<not> heading_in_tolerance heading accuracy (message h)"
  then show "wait_heading_loop heading accuracy S timeout fh tstart ds mean prev cnt (h # hs') =
        wait_heading_loop heading accuracy S timeout fh tstart None 0 (message h) 0 hs'"
    by (simp add: wait_heading_loop_step del: wait_heading_loop.simps)
next
  assume "t_loop y < tstart + timeout \<and> call fy y = None \<and>
      \<not> yaw_speed_in_tolerance target accuracy (message y)"
  then show "wait_yaw_speed_loop target accuracy S timeout fy tstart ds mean prev cnt (y # ys') =
        wait_yaw_speed_loop target accuracy S timeout fy tstart None 0 (degrees (message y)) 0 ys'"
    by (simp add: wait_yaw_speed_loop_step del: wait_yaw_speed_loop.simps)
next
  assume a: "t_loop v < tstart + timeout \<and> call fv v = None \<and>
      \<not> speed_vector_in_tolerance tx ty tz accuracy (message v)"
  obtain vx vy vz where m: "message v = (vx, vy, vz)" by (cases "message v") auto
  from a show "wait_speed_vector_loop tx ty tz accuracy S timeout fv tstart ds mx my mz cnt (v # vs') =
        wait_speed_vector_loop tx ty tz accuracy S timeout fv tstart None 0 0 0 0 vs'"
    using wait_speed_vector_loop_step [of v tstart timeout fv vx vy vz tx ty tz accuracy S ds mx my mz cnt vs'] m
    by simp
qed

text \<open>
  On the stream \<open>broken_run\<close> with a minimum sustain time of 5: both runs last 4
  seconds, and from the start of the first to the end of the second it is 13.
\<close>

theorem sustained_wait_short_runs_time_out_witness:
  "short_runs 5 (heading_in_tolerance 90 5) None (before_deadline 0 30 (broken_run 90 120)) \<and>
   wait_heading 90 5 5 30 None 0 (broken_run 90 120) = Some (Inl WaitHeadingTimeout) \<and>
   short_runs 5 (yaw_speed_in_tolerance 0 (1/5)) None (before_deadline 0 30 (broken_run 0 pi)) \<and>
   wait_yaw_speed 0 (1/5) 5 30 None 0 (broken_run 0 pi) = Some (Inl YawSpeedNotAchievedException) \<and>
   short_runs 5 (speed_vector_in_tolerance 1 0 0 (1/5)) None
     (before_deadline 0 30 (broken_run (1, 0, 0) (3, 0, 0))) \<and>
   wait_speed_vector 1 0 0 (1/5) 5 30 None 0 (broken_run (1, 0, 0) (3, 0, 0)) =
     Some (Inl SpeedVectorNotAchievedException) \<and>
   wait_heading_loop 90 5 5 30 None 0 (Some 2) 181 91 2
     (\<lparr>t_loop = 7, message = 120, t_start = 8, t_check = 9\<rparr> # []) =
   wait_heading_loop 90 5 5 30 None 0 None 0 120 0 []"
proof -
  have h: "short_runs 5 (heading_in_tolerance 90 5) None (before_deadline 0 30 (broken_run 90 120))"
    by (simp add: broken_run_def before_deadline_def heading_in_tolerance_def)
  have y: "short_runs 5 (yaw_speed_in_tolerance 0 (1/5)) None (before_deadline 0 30 (broken_run 0 pi))"
    by (simp add: broken_run_def before_deadline_def yaw_speed_in_tolerance_def degrees_def)
  have v: "short_runs 5 (speed_vector_in_tolerance 1 0 0 (1/5)) None
     (before_deadline 0 30 (broken_run (1, 0, 0) (3, 0, 0)))"
    by (simp add: broken_run_def before_deadline_def speed_vector_in_tolerance_def)
  have dh: "\<exists>k \<in> set (broken_run (90::real) 120). (0::real) + 30 \<le> t_loop k"
    and dy: "\<exists>k \<in> set (broken_run (0::real) pi). (0::real) + 30 \<le> t_loop k"
    and dv: "\<exists>k \<in> set (broken_run ((1, 0, 0)::velocity) (3, 0, 0)). (0::real) + 30 \<le> t_loop k"
    by (simp_all add: broken_run_def)
  have qh: "\<forall>k \<in> set (broken_run (90::real) 120). call None k = None"
    and qy: "\<forall>k \<in> set (broken_run (0::real) pi). call None k = None"
    and qv: "\<forall>k \<in> set (broken_run ((1, 0, 0)::velocity) (3, 0, 0)). call None k = None"
    by (simp_all add: call_def)
  have r: "t_loop \<lparr>t_loop = 7, message = 120, t_start = 8, t_check = 9\<rparr> < (0::real) + 30 \<and>
      call None \<lparr>t_loop = 7, message = 120::real, t_start = 8, t_check = 9\<rparr> = None \<and>
      \<not> heading_in_tolerance 90 5 (message \<lparr>t_loop = 7, message = 120, t_start = 8, t_check = 9\<rparr>)"
    by (simp add: heading_in_tolerance_def call_def)
  note inst = sustained_wait_short_runs_time_out
    [where S = 5 and heading = 90 and accuracy = 5 and tstart = 0 and timeout = 30
       and hs = "broken_run 90 120" and fh = None
       and h = "\<lparr>t_loop = 7, message = 120, t_start = 8, t_check = 9\<rparr>"
       and ds = "Some 2" and mean = 181 and prev = 91 and cnt = 2 and hs' = "[]"]
  from inst [THEN conjunct1] h dh qh
  have c1: "wait_heading 90 5 5 30 None 0 (broken_run 90 120) = Some (Inl WaitHeadingTimeout)"
    by blast
  from inst [THEN conjunct2, THEN conjunct2, THEN conjunct2, THEN conjunct1] r
  have c4: "wait_heading_loop 90 5 5 30 None 0 (Some 2) 181 91 2
          (\<lparr>t_loop = 7, message = 120, t_start = 8, t_check = 9\<rparr> # []) =
         wait_heading_loop 90 5 5 30 None 0 None 0 120 0 []"
    by (simp del: wait_heading_loop.simps)
  from sustained_wait_short_runs_time_out
    [where S = 5 and target = 0 and accuracy = "1/5" and tstart = 0 and timeout = 30
       and ys = "broken_run 0 pi" and fy = None, THEN conjunct2, THEN conjunct1]
    y dy qy
  have c2: "wait_yaw_speed 0 (1/5) 5 30 None 0 (broken_run 0 pi) =
      Some (Inl YawSpeedNotAchievedException)"
    by blast
  from sustained_wait_short_runs_time_out
    [where S = 5 and tx = 1 and ty = 0 and tz = 0 and accuracy = "1/5" and tstart = 0
       and timeout = 30 and vs = "broken_run (1, 0, 0) (3, 0, 0)" and fv = None,
     THEN conjunct2, THEN conjunct2, THEN conjunct1]
    v dv qv
  have c3: "wait_speed_vector 1 0 0 (1/5) 5 30 None 0 (broken_run (1, 0, 0) (3, 0, 0)) =
     Some (Inl SpeedVectorNotAchievedException)"
    by blast
  from h y v c1 c2 c3 c4 show ?thesis by (simp del: wait_heading_loop.simps)
qed

subsection \<open>Sustained waits: when the wait is satisfied\<close>

text \<open>
  Claim C5, as the code has it. The three waits compare with \<open>>\<close>, and what they
  compare is the double-precision difference \<open>get_sim_time() - duration_start\<close>, here
  \<open>fsub\<close>: a pass of a run at which that difference is the minimum sustain time \<open>S\<close> or
  less, \<open>S\<close> itself included, goes on to the next pass, and the wait returns at the
  first pass at which the difference is strictly greater than \<open>S\<close>. Here \<open>run\<close> are the
  passes of a run from the start of the wait at which the computed difference is at most
  \<open>S\<close> and \<open>k\<close> is the pass at which it exceeds \<open>S\<close>; the wait returns there, with
  the mean over the run, and reads nothing of \<open>rest\<close>. This holds for every \<open>fsub\<close>,
  so for the subtraction the interpreter performs, whatever it rounds.
\<close>

theorem sustained_wait_attains_strictly_after:
  "((\<forall>j \<in> set (run @ [k]). t_loop j < tstart + timeout \<and> call fh j = None \<and>
        heading_in_tolerance heading accuracy (message j)) \<and>
      (\<forall>j \<in> set run. fsub (t_check j) (t_start (hd (run @ [k]))) \<le> S) \<and>
      S < fsub (t_check k) (t_start (hd (run @ [k]))) \<longrightarrow>
      wait_heading_fp fsub heading accuracy S timeout fh tstart (run @ k # rest) =
        Some (Inr (if heading \<ge> accuracy
                   then sum_list (map message (run @ [k])) / real (length (run @ [k]))
                   else message k))) \<and>
   ((\<forall>j \<in> set (run @ [k]). t_loop j < tstart + timeout \<and> call fy j = None \<and>
        yaw_speed_in_tolerance target accuracy (message j)) \<and>
      (\<forall>j \<in> set run. fsub (t_check j) (t_start (hd (run @ [k]))) \<le> S) \<and>
      S < fsub (t_check k) (t_start (hd (run @ [k]))) \<longrightarrow>
      wait_yaw_speed_fp fsub target accuracy S timeout fy tstart (run @ k # rest) =
        Some (Inr (sum_list (map (\<lambda>j. degrees (message j)) (run @ [k])) /
                   real (length (run @ [k]))))) \<and>
   ((\<forall>j \<in> set (vrun @ [v]). t_loop j < tstart + timeout \<and> call fv j = None \<and>
        speed_vector_in_tolerance tx ty tz accuracy (message j)) \<and>
      (\<forall>j \<in> set vrun. fsub (t_check j) (t_start (hd (vrun @ [v]))) \<le> S) \<and>
      S < fsub (t_check v) (t_start (hd (vrun @ [v]))) \<longrightarrow>
      wait_speed_vector_fp fsub tx ty tz accuracy S timeout fv tstart (vrun @ v # vrest) =
        Some (Inr (sum_list (map (\<lambda>j. fst (message j)) (vrun @ [v])) / real (length (vrun @ [v])),
                   sum_list (map (\<lambda>j. fst (snd (message j))) (vrun @ [v])) /
                     real (length (vrun @ [v])),
                   sum_list (map (\<lambda>j. snd (snd (message j))) (vrun @ [v])) /
                     real (length (vrun @ [v])))))"
proof (intro conjI impI)
  assume a: "(\<forall>j \<in> set (run @ [k]). t_loop j < tstart + timeout \<and> call fh j = None \<and>
        heading_in_tolerance heading accuracy (message j)) \<and>
      (\<forall>j \<in> set run. fsub (t_check j) (t_start (hd (run @ [k]))) \<le> S) \<and>
      S < fsub (t_check k) (t_start (hd (run @ [k])))"
  have "wait_heading_loop_fp fsub heading accuracy S timeout fh tstart None 0 0 0 (run @ k # rest) =
     Some (Inr (if heading \<ge> accuracy
                then (0 + sum_list (map message (run @ [k]))) / (0 + real (length (run @ [k])))
                else message k))"
    using a by (intro wait_heading_loop_fp_attains [where start = "t_start (hd (run @ [k]))"]) simp_all
  then show "wait_heading_fp fsub heading accuracy S timeout fh tstart (run @ k # rest) =
        Some (Inr (if heading \<ge> accuracy
                   then sum_list (map message (run @ [k])) / real (length (run @ [k]))
                   else message k))"
    by (simp add: wait_heading_fp_def)
next
  assume a: "(\<forall>j \<in> set (run @ [k]). t_loop j < tstart + timeout \<and> call fy j = None \<and>
        yaw_speed_in_tolerance target accuracy (message j)) \<and>
      (\<forall>j \<in> set run. fsub (t_check j) (t_start (hd (run @ [k]))) \<le> S) \<and>
      S < fsub (t_check k) (t_start (hd (run @ [k])))"
  have "wait_yaw_speed_loop_fp fsub target accuracy S timeout fy tstart None 0 0 0 (run @ k # rest) =
     Some (Inr ((0 + sum_list (map (\<lambda>j. degrees (message j)) (run @ [k]))) /
                (0 + real (length (run @ [k])))))"
    using a by (intro wait_yaw_speed_loop_fp_attains [where start = "t_start (hd (run @ [k]))"]) simp_all
  then show "wait_yaw_speed_fp fsub target accuracy S timeout fy tstart (run @ k # rest) =
        Some (Inr (sum_list (map (\<lambda>j. degrees (message j)) (run @ [k])) /
                   real (length (run @ [k]))))"
    by (simp add: wait_yaw_speed_fp_def)
next
  assume a: "(\<forall>j \<in> set (vrun @ [v]). t_loop j < tstart + timeout \<and> call fv j = None \<and>
        speed_vector_in_tolerance tx ty tz accuracy (message j)) \<and>
      (\<forall>j \<in> set vrun. fsub (t_check j) (t_start (hd (vrun @ [v]))) \<le> S) \<and>
      S < fsub (t_check v) (t_start (hd (vrun @ [v])))"
  have "wait_speed_vector_loop_fp fsub tx ty tz accuracy S timeout fv tstart None 0 0 0 0 (vrun @ v # vrest) =
     Some (Inr ((0 + sum_list (map (\<lambda>j. fst (message j)) (vrun @ [v]))) /
                  (0 + real (length (vrun @ [v]))),
                (0 + sum_list (map (\<lambda>j. fst (snd (message j))) (vrun @ [v]))) /
                  (0 + real (length (vrun @ [v]))),
                (0 + sum_list (map (\<lambda>j. snd (snd (message j))) (vrun @ [v]))) /
                  (0 + real (length (vrun @ [v])))))"
    using a
    by (intro wait_speed_vector_loop_fp_attains [where start = "t_start (hd (vrun @ [v]))"]) simp_all
  then show "wait_speed_vector_fp fsub tx ty tz accuracy S timeout fv tstart (vrun @ v # vrest) =
        Some (Inr (sum_list (map (\<lambda>j. fst (message j)) (vrun @ [v])) / real (length (vrun @ [v])),
                   sum_list (map (\<lambda>j. fst (snd (message j))) (vrun @ [v])) /
                     real (length (vrun @ [v])),
                   sum_list (map (\<lambda>j. snd (snd (message j))) (vrun @ [v])) /
                     real (length (vrun @ [v]))))"
    by (simp add: wait_speed_vector_fp_def)
qed

text \<open>
  With a minimum sustain time of 5, a run that starts at time 2 and times in whole
  seconds, whose differences are exact in double precision: the pass that checks at time
  7, exactly 5 seconds in, does not end the heading wait; the pass that checks at time 8
  does, with the mean of the three headings.
\<close>

theorem sustained_wait_attains_strictly_after_witness:
  "t_check \<lparr>t_loop = 4, message = 92::real, t_start = 5, t_check = 7\<rparr> -
     t_start \<lparr>t_loop = 1, message = 90::real, t_start = 2, t_check = 3\<rparr> = 5 \<and>
   wait_heading_fp (-) 90 5 5 30 None 0
     ([\<lparr>t_loop = 1, message = 90, t_start = 2, t_check = 3\<rparr>,
       \<lparr>t_loop = 4, message = 92, t_start = 5, t_check = 7\<rparr>] @
      \<lparr>t_loop = 7, message = 91, t_start = 8, t_check = 8\<rparr> #
      [\<lparr>t_loop = 9, message = 200, t_start = 10, t_check = 11\<rparr>]) = Some (Inr 91)"
proof -
  let ?run = "[\<lparr>t_loop = 1, message = 90::real, t_start = 2, t_check = 3\<rparr>,
       \<lparr>t_loop = 4, message = 92, t_start = 5, t_check = 7\<rparr>]"
  let ?k = "\<lparr>t_loop = 7, message = 91::real, t_start = 8, t_check = 8\<rparr>"
  have a: "(\<forall>j \<in> set (?run @ [?k]). t_loop j < 0 + 30 \<and> call None j = None \<and>
        heading_in_tolerance 90 5 (message j)) \<and>
      (\<forall>j \<in> set ?run. t_check j - t_start (hd (?run @ [?k])) \<le> 5) \<and>
      5 < t_check ?k - t_start (hd (?run @ [?k]))"
    by (simp add: call_def heading_in_tolerance_def)
  from sustained_wait_attains_strictly_after
    [where fsub = "(-)" and run = ?run and k = ?k and tstart = 0 and timeout = 30 and fh = None
       and heading = 90 and accuracy = 5 and S = 5
       and rest = "[\<lparr>t_loop = 9, message = 200, t_start = 10, t_check = 11\<rparr>]",
     THEN conjunct1] a
  have "wait_heading_fp (-) 90 5 5 30 None 0
     (?run @ ?k # [\<lparr>t_loop = 9, message = 200, t_start = 10, t_check = 11\<rparr>]) =
     Some (Inr (if (90::real) \<ge> 5
                   then sum_list (map message (?run @ [?k])) / real (length (?run @ [?k]))
                   else message ?k))"
    by blast
  then show ?thesis by simp
qed

text \<open>
  A run of exactly the minimum sustain time is not enough: the run starts at time 2, the
  check at time 7 finds 5 seconds, the wait goes on and meets the deadline.
\<close>

theorem wait_heading_exact_sustain_times_out:
  "t_check \<lparr>t_loop = 1, message = 90::real, t_start = 2, t_check = 7\<rparr> -
     t_start \<lparr>t_loop = 1, message = 90::real, t_start = 2, t_check = 7\<rparr> \<ge> 5 \<and>
   wait_heading 90 5 5 30 None 0
     [\<lparr>t_loop = 1, message = 90, t_start = 2, t_check = 7\<rparr>,
      \<lparr>t_loop = 31, message = 90, t_start = 32, t_check = 33\<rparr>] = Some (Inl WaitHeadingTimeout) \<and>
   wait_yaw_speed 0 (1/5) 5 30 None 0
     [\<lparr>t_loop = 1, message = 0, t_start = 2, t_check = 7\<rparr>,
      \<lparr>t_loop = 31, message = 0, t_start = 32, t_check = 33\<rparr>] =
     Some (Inl YawSpeedNotAchievedException)"
  by (simp add: wait_heading_def wait_yaw_speed_def call_def degrees_def)

subsection \<open>wait_heading: which headings match\<close>

text \<open>
  Claim C10. A heading wait on one message \<open>k\<close> returns exactly when the loop condition
  holds, the callback returns, the time check passes, and the heading \<open>h\<close> of the message
  satisfies \<open>|h - heading| \<le> accuracy\<close>, or \<open>heading \<le> accuracy\<close> together with
  \<open>|h - 360| \<le> accuracy\<close>. A target of 359 with accuracy 5 is not matched by the
  heading 1 (that wait ends in the timeout), while a target of 1 is matched by the
  heading 359: the special case is one-sided and is not the distance on the circle of 360
  degrees, which is 2 in both.
\<close>

theorem wait_heading_match:
  "((\<exists>v. wait_heading heading accuracy S timeout the_function tstart [k] = Some (Inr v)) \<longleftrightarrow>
      (t_loop k < tstart + timeout \<and> call the_function k = None \<and>
       (\<bar>message k - heading\<bar> \<le> accuracy \<or>
        (heading \<le> accuracy \<and> \<bar>message k - 360\<bar> \<le> accuracy)) \<and>
       S < t_check k - t_start k)) \<and>
   wait_heading 359 5 0 30 None 0
     [\<lparr>t_loop = 1, message = 1, t_start = 2, t_check = 3\<rparr>,
      \<lparr>t_loop = 31, message = 1, t_start = 32, t_check = 33\<rparr>] = Some (Inl WaitHeadingTimeout) \<and>
   wait_heading 1 5 0 30 None 0
     [\<lparr>t_loop = 1, message = 359, t_start = 2, t_check = 3\<rparr>,
      \<lparr>t_loop = 31, message = 359, t_start = 32, t_check = 33\<rparr>] = Some (Inr 359)"
proof (intro conjI)
  show "(\<exists>v. wait_heading heading accuracy S timeout the_function tstart [k] = Some (Inr v)) \<longleftrightarrow>
      (t_loop k < tstart + timeout \<and> call the_function k = None \<and>
       (\<bar>message k - heading\<bar> \<le> accuracy \<or>
        (heading \<le> accuracy \<and> \<bar>message k - 360\<bar> \<le> accuracy)) \<and>
       S < t_check k - t_start k)"
    by (cases "call the_function k") (auto simp: wait_heading_def Let_def)
qed (simp_all add: wait_heading_def call_def)

text \<open>
  The two headings next to north, read off the equivalence: 359 satisfies a wait for 1,
  and 1 does not satisfy a wait for 359.
\<close>

theorem wait_heading_match_witness:
  "(\<exists>v. wait_heading 1 5 0 30 None 0
          [\<lparr>t_loop = 1, message = 359, t_start = 2, t_check = 3\<rparr>] = Some (Inr v)) \<and>
   \<not> (\<exists>v. wait_heading 359 5 0 30 None 0
          [\<lparr>t_loop = 1, message = 1, t_start = 2, t_check = 3\<rparr>] = Some (Inr v))"
  using wait_heading_match
      [where heading = 1 and accuracy = 5 and S = 0 and timeout = 30 and the_function = None
         and tstart = 0 and k = "\<lparr>t_loop = 1, message = 359, t_start = 2, t_check = 3\<rparr>",
       THEN conjunct1]
    wait_heading_match
      [where heading = 359 and accuracy = 5 and S = 0 and timeout = 30 and the_function = None
         and tstart = 0 and k = "\<lparr>t_loop = 1, message = 1, t_start = 2, t_check = 3\<rparr>",
       THEN conjunct1]
  by (simp add: call_def del: wait_heading_loop.simps)

subsection \<open>wait_distance and wait_location: overshoot\<close>

text \<open>
  Claim C6, as the code has it. \<open>wait_distance\<close> raises \<open>WaitDistanceTimeout\<close> at the
  first poll, before the deadline, at which the distance from the start exceeds
  \<open>distance + accuracy\<close> (the polls before it being short of \<open>distance - accuracy\<close>),
  and reads no later poll. \<open>wait_location\<close> has no such test: a poll farther than
  \<open>accuracy\<close> from the target is passed over and the wait goes on with the next one; it
  raises \<open>WaitLocationTimeout\<close> only when a poll finds the deadline reached.
\<close>

theorem wait_distance_overshoot_wait_location_none:
  "(0 \<le> accuracy \<and>
      (\<forall>p \<in> set pre. fst p < tstart + timeout \<and>
                     get_distance start (snd p) < distance - accuracy) \<and>
      t < tstart + timeout \<and> distance + accuracy < get_distance start pos \<longrightarrow>
      wait_distance distance accuracy timeout tstart start (pre @ (t, pos) # ps) =
        Some (Inl WaitDistanceTimeout)) \<and>
   (t < tstart + timeout \<and> accuracy < get_distance loc pos \<longrightarrow>
      wait_location loc accuracy timeout target_altitude height_accuracy tstart ((t, pos) # ps) =
        wait_location loc accuracy timeout target_altitude height_accuracy tstart ps) \<and>
   (wait_location loc accuracy timeout target_altitude height_accuracy tstart polls =
        Some (Inl e) \<longrightarrow>
      e = WaitLocationTimeout \<and> (\<exists>p \<in> set polls. tstart + timeout \<le> fst p))"
proof -
  have overshoot: "wait_distance distance accuracy timeout tstart start (pre @ (t, pos) # ps) =
        Some (Inl WaitDistanceTimeout)"
    if a: "0 \<le> accuracy \<and>
      (\<forall>p \<in> set pre. fst p < tstart + timeout \<and>
                     get_distance start (snd p) < distance - accuracy) \<and>
      t < tstart + timeout \<and> distance + accuracy < get_distance start pos"
  proof -
    from a have "wait_distance_loop distance accuracy timeout tstart start (pre @ (t, pos) # ps) =
        wait_distance_loop distance accuracy timeout tstart start ((t, pos) # ps)"
      by (intro wait_distance_loop_short_of_target) simp_all
    moreover from a have "\<not> \<bar>get_distance start pos - distance\<bar> \<le> accuracy" by auto
    ultimately show ?thesis
      using a by (simp add: wait_distance_def Let_def)
  qed
  have passes: "wait_location loc accuracy timeout target_altitude height_accuracy tstart
        ((t, pos) # ps) =
      wait_location loc accuracy timeout target_altitude height_accuracy tstart ps"
    if "t < tstart + timeout \<and> accuracy < get_distance loc pos"
    using that by (simp add: wait_location_def Let_def)
  have deadline: "e = WaitLocationTimeout \<and> (\<exists>p \<in> set polls. tstart + timeout \<le> fst p)"
    if "wait_location loc accuracy timeout target_altitude height_accuracy tstart polls =
        Some (Inl e)"
    using that unfolding wait_location_def by (rule wait_location_loop_raises)
  from overshoot passes deadline show ?thesis by blast
qed

text \<open>
  A vehicle that starts at the origin and moves north: one hundredth of a degree is
  1113.195 metres. Asked for 1000 metres within 5, \<open>wait_distance\<close> raises at the poll
  at 1113.195 metres. Sent to the origin, \<open>wait_location\<close> passes over the same poll.
\<close>

theorem wait_distance_overshoot_wait_location_none_witness:
  "get_distance \<lparr>lat = 0, lng = 0, alt = 10\<rparr> \<lparr>lat = 1/200, lng = 0, alt = 10\<rparr> < 1000 - 5 \<and>
   1000 + 5 < get_distance \<lparr>lat = 0, lng = 0, alt = 10\<rparr> \<lparr>lat = 1/100, lng = 0, alt = 10\<rparr> \<and>
   wait_distance 1000 5 30 0 \<lparr>lat = 0, lng = 0, alt = 10\<rparr>
     ([(1, \<lparr>lat = 1/200, lng = 0, alt = 10\<rparr>)] @ (2, \<lparr>lat = 1/100, lng = 0, alt = 10\<rparr>) #
      [(3, \<lparr>lat = 9/1000, lng = 0, alt = 10\<rparr>)]) = Some (Inl WaitDistanceTimeout) \<and>
   wait_location \<lparr>lat = 0, lng = 0, alt = 10\<rparr> 5 30 None (- 1) 0
     ((2, \<lparr>lat = 1/100, lng = 0, alt = 10\<rparr>) # [(3, \<lparr>lat = 0, lng = 0, alt = 10\<rparr>)]) =
   wait_location \<lparr>lat = 0, lng = 0, alt = 10\<rparr> 5 30 None (- 1) 0
     [(3, \<lparr>lat = 0, lng = 0, alt = 10\<rparr>)]"
proof -
  let ?o = "\<lparr>lat = 0, lng = 0, alt = 10\<rparr>"
  have d1: "get_distance ?o \<lparr>lat = 1/200, lng = 0, alt = 10\<rparr> < 1000 - 5"
    by (simp add: get_distance_def real_sqrt_divide)
  have d2: "1000 + 5 < get_distance ?o \<lparr>lat = 1/100, lng = 0, alt = 10\<rparr>"
    by (simp add: get_distance_def real_sqrt_divide)
  note inst = wait_distance_overshoot_wait_location_none
    [where accuracy = 5 and pre = "[(1, \<lparr>lat = 1/200, lng = 0, alt = 10\<rparr>)]" and tstart = 0
       and timeout = 30 and start = ?o and distance = 1000 and t = 2
       and pos = "\<lparr>lat = 1/100, lng = 0, alt = 10\<rparr>" and loc = ?o]
  from inst [where ps = "[(3, \<lparr>lat = 9/1000, lng = 0, alt = 10\<rparr>)]", THEN conjunct1] d1 d2
  have c1: "wait_distance 1000 5 30 0 ?o
     ([(1, \<lparr>lat = 1/200, lng = 0, alt = 10\<rparr>)] @ (2, \<lparr>lat = 1/100, lng = 0, alt = 10\<rparr>) #
      [(3, \<lparr>lat = 9/1000, lng = 0, alt = 10\<rparr>)]) = Some (Inl WaitDistanceTimeout)"
    by simp
  from d2 have "(5::real) < get_distance ?o \<lparr>lat = 1/100, lng = 0, alt = 10\<rparr>" by simp
  with inst [where ps = "[(3, ?o)]" and target_altitude = None and height_accuracy = "- 1",
      THEN conjunct2, THEN conjunct1]
  have c2: "wait_location ?o 5 30 None (- 1) 0
     ((2, \<lparr>lat = 1/100, lng = 0, alt = 10\<rparr>) # [(3, ?o)]) =
   wait_location ?o 5 30 None (- 1) 0 [(3, ?o)]"
    by simp
  from d1 d2 c1 c2 show ?thesis by blast
qed

text \<open>
  The poll at 1113.195 metres from the target does not end \<open>wait_location\<close>: the vehicle
  is at the target at the next poll and the wait returns \<open>True\<close>.
\<close>

theorem wait_location_no_fast_fail:
  "5 < get_distance \<lparr>lat = 0, lng = 0, alt = 10\<rparr> \<lparr>lat = 1/100, lng = 0, alt = 10\<rparr> \<and>
   wait_location \<lparr>lat = 0, lng = 0, alt = 10\<rparr> 5 30 None (- 1) 0
     [(2, \<lparr>lat = 1/100, lng = 0, alt = 10\<rparr>), (3, \<lparr>lat = 0, lng = 0, alt = 10\<rparr>)] =
     Some (Inr True)"
  by (simp add: wait_location_def get_distance_def real_sqrt_divide)

subsection \<open>wait_waypoint: a skipped waypoint\<close>




end
